theory Spec2Isabelle
  imports Complex_Main "HOL-Library.Sublist"
begin

section \<open>JavaScript strings\<close>

text \<open>
  A text is a \<^typ>\<open>string\<close>: each \<^typ>\<open>char\<close> is one UTF-16 code unit in the range
  U+0000 .. U+00FF, with \<^term>\<open>of_char c\<close> its code. On this range the built-in string
  operations used by the services are closed and are written out below.
\<close>

definition code :: "char \<Rightarrow> nat" where
  "code c = of_char c"

text \<open>\<^verbatim>\<open>String.prototype.toLowerCase\<close>: A-Z and the capital letters U+00C0 .. U+00DE
  (U+00D7, the multiplication sign, apart) move up by 32; everything else stays.\<close>

definition lowerChar :: "char \<Rightarrow> char" where
  "lowerChar c =
     (if (65 \<le> code c \<and> code c \<le> 90) \<or> (192 \<le> code c \<and> code c \<le> 222 \<and> code c \<noteq> 215)
      then char_of (code c + 32) else c)"

definition toLowerCase :: "string \<Rightarrow> string" where
  "toLowerCase s = map lowerChar s"

text \<open>\<^verbatim>\<open>String.prototype.includes\<close>: the second string occurs at some position of the
  first.\<close>

fun str_includes :: "string \<Rightarrow> string \<Rightarrow> bool" where
  "str_includes [] sub = (sub = [])"
| "str_includes (c # cs) sub = (prefix sub (c # cs) \<or> str_includes cs sub)"

section \<open>services/intentDetector.js\<close>

record intent_rule =
  rule_intent :: string
  rule_keywords :: "string list"

definition INTENT_RULES :: "intent_rule list" where
  "INTENT_RULES =
   [ \<lparr>rule_intent = ''code_generation'',
      rule_keywords = [''write'', ''code'', ''implement'', ''function'', ''program'', ''script'',
                  ''algorithm'', ''build'', ''create a'', ''develop'']\<rparr>,
     \<lparr>rule_intent = ''explanation'',
      rule_keywords = [''explain'', ''what is'', ''how does'', ''describe'', ''tell me about'',
                  ''define'', ''meaning of'', ''why does'']\<rparr>,
     \<lparr>rule_intent = ''debugging'',
      rule_keywords = [''fix'', ''debug'', ''error'', ''bug'', ''issue'', ''not working'', ''wrong'',
                  ''broken'', ''failing'']\<rparr>,
     \<lparr>rule_intent = ''creative_writing'',
      rule_keywords = [''write a story'', ''poem'', ''essay'', ''blog'', ''article'', ''creative'',
                  ''narrative'', ''fiction'']\<rparr>,
     \<lparr>rule_intent = ''data_analysis'',
      rule_keywords = [''analyze'', ''data'', ''chart'', ''graph'', ''statistics'', ''dataset'',
                  ''csv'', ''visualize'', ''plot'']\<rparr>,
     \<lparr>rule_intent = ''summarization'',
      rule_keywords = [''summarize'', ''summary'', ''tldr'', ''shorten'', ''condense'', ''brief'',
                  ''key points'']\<rparr>,
     \<lparr>rule_intent = ''translation'',
      rule_keywords = [''translate'', ''convert to'', ''in spanish'', ''in french'', ''in hindi'',
                  ''localize'']\<rparr>,
     \<lparr>rule_intent = ''comparison'',
      rule_keywords = [''compare'', ''difference between'', ''vs'', ''versus'', ''pros and cons'',
                  ''better'']\<rparr>,
     \<lparr>rule_intent = ''instruction'',
      rule_keywords = [''how to'', ''steps to'', ''guide'', ''tutorial'', ''instructions'',
                  ''walk me through'', ''show me how'']\<rparr> ]"

record intent_result =
  detected :: string
  confidence :: string
  source :: string

text \<open>The inner loop of \<^verbatim>\<open>detectByRules\<close>: the keywords of one rule, in order; \<open>True\<close>
  is the early return.\<close>

fun scanKeywords :: "string \<Rightarrow> string list \<Rightarrow> bool" where
  "scanKeywords lower [] = False"
| "scanKeywords lower (kw # kws) = (if str_includes lower kw then True else scanKeywords lower kws)"

text \<open>The outer loop: the rules in table order, returning at the first keyword found; the
  fallback result after the loop.\<close>

fun scanRules :: "string \<Rightarrow> intent_rule list \<Rightarrow> intent_result" where
  "scanRules lower [] = \<lparr>detected = ''general'', confidence = ''low'', source = ''rule''\<rparr>"
| "scanRules lower (rule # rules) =
     (if scanKeywords lower (rule_keywords rule)
      then \<lparr>detected = rule_intent rule, confidence = ''medium'', source = ''rule''\<rparr>
      else scanRules lower rules)"

definition intent_detectByRules :: "string \<Rightarrow> intent_result" where
  "intent_detectByRules text = (let lower = toLowerCase text in scanRules lower INTENT_RULES)"

text \<open>The exported \<^verbatim>\<open>detect\<close> of the intent detector (the spec's \<open>classify\<close>).\<close>

definition intentDetector_detect :: "string \<Rightarrow> intent_result" where
  "intentDetector_detect text = intent_detectByRules text"

section \<open>Regular expressions of the services\<close>

text \<open>The character classes \<^verbatim>\<open>\w\<close>, \<^verbatim>\<open>\d\<close>, \<^verbatim>\<open>[A-Z]\<close>, \<^verbatim>\<open>[a-z]\<close> and \<^verbatim>\<open>\s\<close>
  (tab, line feed, vertical tab, form feed, carriage return, space, no-break space).\<close>

definition isDigit :: "char \<Rightarrow> bool" where
  "isDigit c = (48 \<le> code c \<and> code c \<le> 57)"

definition isUpperAZ :: "char \<Rightarrow> bool" where
  "isUpperAZ c = (65 \<le> code c \<and> code c \<le> 90)"

definition isLowerAZ :: "char \<Rightarrow> bool" where
  "isLowerAZ c = (97 \<le> code c \<and> code c \<le> 122)"

definition isWordChar :: "char \<Rightarrow> bool" where
  "isWordChar c = (isLowerAZ c \<or> isUpperAZ c \<or> isDigit c \<or> code c = 95)"

definition isSpace :: "char \<Rightarrow> bool" where
  "isSpace c = ((9 \<le> code c \<and> code c \<le> 13) \<or> code c = 32 \<or> code c = 160)"

text \<open>The case folding of a regular expression with the flag \<^verbatim>\<open>i\<close> and without the
  flag \<^verbatim>\<open>u\<close>: each character is replaced by its capital. The folded characters are only
  compared with each other, so the three letters of the range whose capital is not one code
  unit of the range (U+00B5, U+00DF, U+00FF) stay in place.\<close>

definition canonicalize :: "char \<Rightarrow> char" where
  "canonicalize c =
     (if isLowerAZ c \<or> (224 \<le> code c \<and> code c \<le> 254 \<and> code c \<noteq> 247)
      then char_of (code c - 32) else c)"

text \<open>A pattern of literal characters read at the front of the remaining input, under the
  flag \<^verbatim>\<open>i\<close>.\<close>

fun litMatch :: "string \<Rightarrow> string \<Rightarrow> bool" where
  "litMatch [] s = True"
| "litMatch (p # ps) [] = False"
| "litMatch (p # ps) (c # cs) = (canonicalize p = canonicalize c \<and> litMatch ps cs)"

text \<open>The assertion \<^verbatim>\<open>\b\<close> at index \<open>i\<close> of \<open>s\<close>: exactly one of the characters at
  \<open>i - 1\<close> and at \<open>i\<close> is a word character; an index outside the input has none.\<close>

definition isWordAt :: "string \<Rightarrow> int \<Rightarrow> bool" where
  "isWordAt s i = (0 \<le> i \<and> i < int (length s) \<and> isWordChar (s ! nat i))"

definition isBoundary :: "string \<Rightarrow> nat \<Rightarrow> bool" where
  "isBoundary s i = (isWordAt s (int i - 1) \<noteq> isWordAt s (int i))"

text \<open>\<^verbatim>\<open>new RegExp(`\\b${escapeRegex(lit)}\\b`, 'i').test(s)\<close>: \<^verbatim>\<open>escapeRegex\<close> puts a
  backslash before every metacharacter, so the pattern between the two assertions reads
  \<open>lit\<close> literally; the test tries every start index from left to right.\<close>

definition matchesAt :: "string \<Rightarrow> string \<Rightarrow> nat \<Rightarrow> bool" where
  "matchesAt lit s i =
     (isBoundary s i \<and> litMatch lit (drop i s) \<and> isBoundary s (i + length lit))"

definition wordBoundaryTest :: "string \<Rightarrow> string \<Rightarrow> bool" where
  "wordBoundaryTest lit s = list_ex (matchesAt lit s) [0..<Suc (length s)]"

text \<open>\<^verbatim>\<open>s.split(/\s+/)\<close>: the pieces between the maximal runs of white space, with an
  empty piece before a leading run and after a trailing one; \<open>cur\<close> is the piece being read
  and \<open>inRun\<close> tells that the previous character was white space.\<close>

fun splitFrom :: "string \<Rightarrow> bool \<Rightarrow> string \<Rightarrow> string list" where
  "splitFrom cur inRun [] = [cur]"
| "splitFrom cur inRun (c # cs) =
     (if isSpace c then (if inRun then splitFrom cur True cs else cur # splitFrom [] True cs)
      else splitFrom (cur @ [c]) False cs)"

definition splitWhitespace :: "string \<Rightarrow> string list" where
  "splitWhitespace s = splitFrom [] False s"

text \<open>\<^verbatim>\<open>(s.match(/[.!?]+/g) || []).length\<close>: the number of maximal runs of the three
  characters.\<close>

definition isTerminator :: "char \<Rightarrow> bool" where
  "isTerminator c = (c = CHR ''.'' \<or> c = CHR ''!'' \<or> c = CHR ''?'')"

fun countRuns :: "bool \<Rightarrow> string \<Rightarrow> nat" where
  "countRuns inRun [] = 0"
| "countRuns inRun (c # cs) =
     (if isTerminator c then (if inRun then 0 else 1) + countRuns True cs
      else countRuns False cs)"

text \<open>\<^verbatim>\<open>/[A-Z]{2,}/.test(s)\<close>: two capitals next to each other.\<close>

fun hasUpperRun :: "string \<Rightarrow> bool" where
  "hasUpperRun (a # b # cs) = ((isUpperAZ a \<and> isUpperAZ b) \<or> hasUpperRun (b # cs))"
| "hasUpperRun cs = False"

section \<open>services/constraintDetector.js\<close>

definition LANGUAGES :: "string list" where
  "LANGUAGES =
   [''javascript'', ''python'', ''java'', ''c++'', ''c#'', ''ruby'', ''go'', ''rust'',
    ''typescript'', ''php'', ''swift'', ''kotlin'', ''scala'', ''r'', ''matlab'',
    ''sql'', ''html'', ''css'', ''bash'', ''shell'', ''powershell'', ''dart'']"

definition LEVELS :: "string list" where
  "LEVELS =
   [''beginner'', ''intermediate'', ''advanced'', ''expert'', ''novice'',
    ''basic'', ''simple'', ''complex'', ''in-depth'']"

definition OUTPUT_FORMATS :: "string list" where
  "OUTPUT_FORMATS =
   [''code only'', ''code + explanation'', ''step by step'', ''bullet points'',
    ''table'', ''json'', ''markdown'', ''diagram'', ''pseudocode'', ''list'']"

definition SCOPE_INDICATORS :: "string list" where
  "SCOPE_INDICATORS =
   [''function'', ''class'', ''module'', ''full app'', ''snippet'', ''project'',
    ''component'', ''api'', ''endpoint'', ''page'', ''service'', ''script'']"

definition EXAMPLE_INDICATORS :: "string list" where
  "EXAMPLE_INDICATORS =
   [''example'', ''for instance'', ''e.g.'', ''such as'', ''like this'',
    ''sample'', ''demo'', ''illustration'']"

record default_suggestions =
  language :: "string list"
  level :: "string list"
  output_format :: "string list"
  scope :: "string list"
  examples :: "string list"

definition DEFAULT_SUGGESTIONS :: default_suggestions where
  "DEFAULT_SUGGESTIONS =
   \<lparr>language = [''Python'', ''JavaScript'', ''Java'', ''TypeScript'', ''C++'', ''Go''],
    level = [''Beginner'', ''Intermediate'', ''Advanced''],
    output_format = [''Code only'', ''Code + Explanation'', ''Step-by-step'', ''Bullet points''],
    scope = [''Function'', ''Class'', ''Full module'', ''Code snippet''],
    examples = [''Include examples'', ''No examples needed'']\<rparr>"

text \<open>The result object: \<open>gaps\<close> is the array, \<open>suggestions\<close> the object, its keys in
  insertion order.\<close>

record gap_result =
  gaps :: "string list"
  suggestions :: "(string \<times> string list) list"

text \<open>The callback given to \<^verbatim>\<open>LANGUAGES.some\<close>.\<close>

definition languagePresent :: "string \<Rightarrow> string \<Rightarrow> bool" where
  "languagePresent lower lang =
     (if length lang \<le> 3 then wordBoundaryTest lang lower else str_includes lower lang)"

text \<open>Assignment to a property of an object: the value of an existing key is replaced in
  place, a new key goes to the end.\<close>

fun setProperty :: "string \<Rightarrow> 'v \<Rightarrow> (string \<times> 'v) list \<Rightarrow> (string \<times> 'v) list" where
  "setProperty k v [] = [(k, v)]"
| "setProperty k v (p # ps) = (if fst p = k then (k, v) # ps else p # setProperty k v ps)"

text \<open>The two statements of each \<^verbatim>\<open>if (!has...)\<close> block.\<close>

definition addGap :: "string \<Rightarrow> string list \<Rightarrow> gap_result \<Rightarrow> gap_result" where
  "addGap name chips r =
     \<lparr>gaps = gaps r @ [name], suggestions = setProperty name chips (suggestions r)\<rparr>"

definition hasLanguage :: "string \<Rightarrow> bool" where
  "hasLanguage lower = list_ex (languagePresent lower) LANGUAGES"

definition hasLevel :: "string \<Rightarrow> bool" where
  "hasLevel lower = list_ex (str_includes lower) LEVELS"

definition hasFormat :: "string \<Rightarrow> bool" where
  "hasFormat lower = list_ex (str_includes lower) OUTPUT_FORMATS"

definition hasScope :: "string \<Rightarrow> bool" where
  "hasScope lower = list_ex (str_includes lower) SCOPE_INDICATORS"

definition hasExamples :: "string \<Rightarrow> bool" where
  "hasExamples lower = list_ex (str_includes lower) EXAMPLE_INDICATORS"

definition constraint_detectByRules :: "string \<Rightarrow> gap_result" where
  "constraint_detectByRules text =
     (let lower = toLowerCase text;
          r = \<lparr>gaps = [], suggestions = []\<rparr>;
          r = (if \<not> hasLanguage lower
               then addGap ''language'' (language DEFAULT_SUGGESTIONS) r else r);
          r = (if \<not> hasLevel lower
               then addGap ''level'' (level DEFAULT_SUGGESTIONS) r else r);
          r = (if \<not> hasFormat lower
               then addGap ''output_format'' (output_format DEFAULT_SUGGESTIONS) r else r);
          r = (if \<not> hasScope lower
               then addGap ''scope'' (scope DEFAULT_SUGGESTIONS) r else r);
          r = (if \<not> hasExamples lower
               then addGap ''examples'' (examples DEFAULT_SUGGESTIONS) r else r)
      in r)"

text \<open>The exported \<^verbatim>\<open>detect\<close> of the constraint detector (the spec's \<open>detectGaps\<close>).\<close>

definition constraintDetector_detect :: "string \<Rightarrow> gap_result" where
  "constraintDetector_detect text = constraint_detectByRules text"

section \<open>services/scoringEngine.js\<close>

record scorecard =
  clarity :: int
  completeness :: int
  specificity :: int
  intentAlignment :: int
  total :: int

definition actionVerbs :: "string list" where
  "actionVerbs =
   [''write'', ''create'', ''build'', ''explain'', ''fix'', ''debug'', ''analyze'',
    ''compare'', ''list'', ''generate'', ''design'', ''implement'', ''describe'',
    ''summarize'', ''translate'', ''convert'', ''show'', ''tell'', ''help'', ''make'']"

text \<open>
  \<open>uniqueWords\<close> is the size of the set of lowercased words. The quotient
  \<open>diversityRatio\<close> and the literals 0.6 and 0.8 are doubles in the source; the quotient of
  two counts below \<open>2 ^ 50\<close> lies on the same side of the double 0.6 (or 0.8) as the exact
  quotient lies of 3/5 (or 4/5), so the comparison is written on exact numbers.
\<close>

definition scoreByRules :: "string \<Rightarrow> string list \<Rightarrow> scorecard" where
  "scoreByRules text gapList =
     (let words = filter (\<lambda>w. w \<noteq> []) (splitWhitespace text);
          wordCount = int (length words);
          sentenceCount = (if countRuns False text = 0 then 1 else int (countRuns False text));
          hasQuestionMark = str_includes text ''?'';
          uniqueWords = int (card (set (map toLowerCase words)));

          clarity = 3;
          clarity = (if wordCount \<ge> 5 then clarity + 1 else clarity);
          clarity = (if wordCount \<ge> 10 then clarity + 1 else clarity);
          clarity = (if wordCount \<ge> 20 then clarity + 1 else clarity);
          clarity = (if sentenceCount \<ge> 2 then clarity + 1 else clarity);
          clarity = (if str_includes text '','' then clarity + 1 else clarity);
          clarity = (if hasQuestionMark \<or> str_includes text ''.'' then clarity + 1 else clarity);
          clarity = (if wordCount < 3 then max 1 (clarity - 3) else clarity);
          clarity = min 10 clarity;

          completeness = 10 - int (length gapList) * 2;
          completeness = (if wordCount \<ge> 15 then completeness + 1 else completeness);
          completeness = (if wordCount \<ge> 30 then completeness + 1 else completeness);
          completeness = max 1 (min 10 completeness);

          specificity = 3;
          diversityRatio = (of_int uniqueWords :: real) / of_int (max wordCount 1);
          specificity = (if diversityRatio > 0.6 then specificity + 1 else specificity);
          specificity = (if diversityRatio > 0.8 then specificity + 1 else specificity);
          specificity = (if wordCount \<ge> 8 then specificity + 1 else specificity);
          specificity = (if wordCount \<ge> 15 then specificity + 1 else specificity);
          specificity = (if wordCount \<ge> 25 then specificity + 1 else specificity);
          specificity = (if list_ex isDigit text then specificity + 1 else specificity);
          specificity = (if hasUpperRun text then specificity + 1 else specificity);
          specificity = min 10 specificity;

          intentAlignment = 4;
          lower = toLowerCase text;
          hasAction = list_ex (str_includes lower) actionVerbs;
          intentAlignment = (if hasAction then intentAlignment + 3 else intentAlignment);
          intentAlignment = (if hasQuestionMark then intentAlignment + 1 else intentAlignment);
          intentAlignment = (if wordCount \<ge> 5 then intentAlignment + 1 else intentAlignment);
          intentAlignment = (if wordCount < 3 then max 1 (intentAlignment - 2) else intentAlignment);
          intentAlignment = min 10 intentAlignment;

          total = clarity + completeness + specificity + intentAlignment
      in \<lparr>clarity = clarity, completeness = completeness, specificity = specificity,
          intentAlignment = intentAlignment, total = total\<rparr>)"

text \<open>The exported \<^verbatim>\<open>score\<close>; \<open>gapList\<close> is its parameter \<^verbatim>\<open>gaps\<close>.\<close>

definition score :: "string \<Rightarrow> string list \<Rightarrow> scorecard" where
  "score text gapList = scoreByRules text gapList"

section \<open>services/warningGenerator.js\<close>

text \<open>
  The messages. Each constructor is one string literal of \<^verbatim>\<open>generate\<close>, which starts
  with its own pictograph; \<open>MissingConstraints\<close> carries the joined gap names that the
  template puts into the message.
\<close>

datatype warning =
    HighHallucinationRisk
  | ModerateHallucinationRisk
  | MostConstraintsMissing
  | MissingConstraints string
  | LowClarity
  | UnclearIntent
  | LowConfidence
  | LowQuality

text \<open>\<^verbatim>\<open>Array.prototype.join\<close>.\<close>

fun join :: "string \<Rightarrow> string list \<Rightarrow> string" where
  "join sep [] = []"
| "join sep [x] = x"
| "join sep (x # y # ys) = x @ sep @ join sep (y # ys)"

text \<open>The third argument is the intent object; \<open>None\<close> is the default \<^verbatim>\<open>{}\<close>, which has no
  \<^verbatim>\<open>confidence\<close>.\<close>

definition generate :: "scorecard \<Rightarrow> string list \<Rightarrow> intent_result option \<Rightarrow> warning list" where
  "generate scores gapList intent =
     (let warnings = [];
          warnings = (if specificity scores \<le> 3 then warnings @ [HighHallucinationRisk]
                      else if specificity scores \<le> 5 then warnings @ [ModerateHallucinationRisk]
                      else warnings);
          warnings = (if length gapList \<ge> 4 then warnings @ [MostConstraintsMissing]
                      else if length gapList \<ge> 2
                      then warnings @ [MissingConstraints (join '', '' gapList)]
                      else warnings);
          warnings = (if clarity scores \<le> 3 then warnings @ [LowClarity] else warnings);
          warnings = (if intentAlignment scores \<le> 3 then warnings @ [UnclearIntent]
                      else warnings);
          warnings = (if map_option confidence intent = Some ''low''
                      then warnings @ [LowConfidence] else warnings);
          warnings = (if total scores \<le> 12 then warnings @ [LowQuality] else warnings)
      in warnings)"

section \<open>JavaScript numbers\<close>

text \<open>
  A Number is an IEEE 754 double. The doubles that occur in the drift detector are never
  negative and stay below \<open>2 ^ 1024\<close>; such a double is a rational number, and an
  arithmetic operation gives the double nearest to the exact result, the one with the even
  significand when two are equally near. \<open>toDouble\<close> is that rounding: the exact value
  \<open>x\<close> lies in the binade \<open>2 ^ e \<le> x < 2 ^ (e + 1)\<close>, where doubles are \<open>2 ^ (e - 52)\<close>
  apart (\<open>2 ^ (- 1074)\<close> apart below \<open>2 ^ (- 1022)\<close>).
\<close>

text \<open>The number of binary digits of a positive integer.\<close>

function bitLength :: "int \<Rightarrow> int" where
  "bitLength n = (if n \<le> 0 then 0 else bitLength (n div 2) + 1)"
  by pat_completeness auto
termination
  by (relation "measure nat") auto

declare bitLength.simps [simp del]

text \<open>The binade of a positive rational: the quotient of two integers with \<open>m\<close> and \<open>n\<close>
  binary digits lies between \<open>2 ^ (m - n - 1)\<close> and \<open>2 ^ (m - n + 1)\<close>.\<close>

definition exponentOf :: "rat \<Rightarrow> int" where
  "exponentOf x =
     (let (p, q) = quotient_of x;
          d = bitLength p - bitLength q
      in if 2 powi d \<le> x then d else d - 1)"

definition roundHalfEven :: "rat \<Rightarrow> int" where
  "roundHalfEven r =
     (let f = \<lfloor>r\<rfloor>
      in if r - of_int f < 1 / 2 then f
         else if 1 / 2 < r - of_int f then f + 1
         else if even f then f else f + 1)"

definition toDouble :: "rat \<Rightarrow> rat" where
  "toDouble x =
     (if x \<le> 0 then 0
      else let ulp = 2 powi (max (exponentOf x) (- 1022) - 52)
           in of_int (roundHalfEven (x / ulp)) * ulp)"

text \<open>\<^verbatim>\<open>Math.round\<close>: the nearest integer, the larger one of two equally near.\<close>

definition mathRound :: "rat \<Rightarrow> int" where
  "mathRound x = \<lfloor>x + 1 / 2\<rfloor>"

text \<open>An integral Number below \<open>10 ^ 21\<close> in a template literal: its decimal digits, after a
  minus sign when it is negative.\<close>

fun digitsOf :: "nat \<Rightarrow> string" where
  "digitsOf n =
     (if n < 10 then [char_of (48 + n)] else digitsOf (n div 10) @ [char_of (48 + n mod 10)])"

declare digitsOf.simps [simp del]

definition numberToString :: "int \<Rightarrow> string" where
  "numberToString k = (if k < 0 then CHR ''-'' # digitsOf (nat (- k)) else digitsOf (nat k))"

section \<open>services/driftDetector.js\<close>

definition STOP_WORDS :: "string list" where
  "STOP_WORDS =
   [''a'', ''an'', ''the'', ''is'', ''are'', ''was'', ''were'', ''be'', ''been'', ''being'',
    ''have'', ''has'', ''had'', ''do'', ''does'', ''did'', ''will'', ''would'', ''could'',
    ''should'', ''may'', ''might'', ''can'', ''shall'', ''to'', ''of'', ''in'', ''for'',
    ''on'', ''with'', ''at'', ''by'', ''from'', ''as'', ''into'', ''through'', ''during'',
    ''before'', ''after'', ''above'', ''below'', ''between'', ''and'', ''but'', ''or'',
    ''nor'', ''not'', ''so'', ''yet'', ''both'', ''either'', ''neither'', ''each'',
    ''every'', ''all'', ''any'', ''few'', ''more'', ''most'', ''other'', ''some'',
    ''such'', ''no'', ''only'', ''own'', ''same'', ''than'', ''too'', ''very'', ''just'',
    ''about'', ''it'', ''its'', ''i'', ''me'', ''my'', ''we'', ''our'', ''you'', ''your'',
    ''he'', ''she'', ''they'', ''them'', ''this'', ''that'', ''these'', ''those'',
    ''what'', ''which'', ''who'', ''whom'', ''how'', ''when'', ''where'', ''why'',
    ''if'', ''then'', ''else'', ''while'', ''up'', ''out'', ''off'']"

text \<open>\<^verbatim>\<open>replace(/[^a-z0-9\s]/g, '')\<close> keeps the characters of the three classes.\<close>

definition extractKeywords :: "string \<Rightarrow> string list" where
  "extractKeywords text =
     filter (\<lambda>w. length w > 2 \<and> w \<notin> set STOP_WORDS)
       (splitWhitespace
         (filter (\<lambda>c. isLowerAZ c \<or> isDigit c \<or> isSpace c) (toLowerCase text)))"

record drift_result =
  driftDetected :: bool
  driftWarning :: string

text \<open>
  \<open>overlapRatio\<close> and the literal 0.4 are doubles in the source; for a keyword count below
  \<open>2 ^ 50\<close> the double quotient is below the double 0.4 exactly when the exact quotient is
  below 2/5, so the comparison is written on exact numbers. The number printed in the
  warning is computed on the doubles: \<open>overlapRatioDouble\<close> is the quotient as the division
  rounds it, the product with 100 is rounded again, and \<^verbatim>\<open>Math.round\<close> is applied to that.
\<close>

definition drift_detectByRules :: "string \<Rightarrow> string \<Rightarrow> drift_result" where
  "drift_detectByRules originalText refinedText =
     (let origKeywords = extractKeywords originalText;
          refinedKeywords = set (extractKeywords refinedText)
      in if length origKeywords = 0 then \<lparr>driftDetected = False, driftWarning = ''''\<rparr>
         else
           let overlap = length (filter (\<lambda>kw. kw \<in> refinedKeywords) origKeywords);
               overlapRatio = (real overlap) / real (length origKeywords);
               overlapRatioDouble = toDouble (of_nat overlap / of_nat (length origKeywords))
           in if overlapRatio < 0.4
              then \<lparr>driftDetected = True,
                    driftWarning =
                      ''Intent drift detected: only ''
                      @ numberToString (mathRound (toDouble (overlapRatioDouble * 100)))
                      @ ''% of original keywords ''
                      @ ''are preserved in the refined prompt. The refinement may have altered your original intent.''\<rparr>
              else \<lparr>driftDetected = False, driftWarning = ''''\<rparr>)"

text \<open>The exported \<^verbatim>\<open>detect\<close> of the drift detector (the spec's \<open>detectDrift\<close>).\<close>

definition driftDetector_detect :: "string \<Rightarrow> string \<Rightarrow> drift_result" where
  "driftDetector_detect originalText refinedText =
     drift_detectByRules originalText refinedText"

section \<open>Properties of the scoring engine\<close>

lemma ge_bump: "(a::int) \<le> x \<Longrightarrow> a \<le> (if b then x + 1 else x)"
  by simp

lemma ge_bump3: "(a::int) \<le> x \<Longrightarrow> a \<le> (if b then x + 3 else x)"
  by simp

lemma ge_penalty: "(a::int) \<le> 1 \<Longrightarrow> a \<le> x \<Longrightarrow> a \<le> (if b then max 1 (x - k) else x)"
  by (simp add: le_max_iff_disj)

lemma ge_min10: "(a::int) \<le> 10 \<Longrightarrow> a \<le> x \<Longrightarrow> a \<le> min 10 x"
  by simp

lemma le_min10: "min 10 (x::int) \<le> 10"
  by simp

lemma clamp_1_10: "1 \<le> max 1 (min 10 (x::int)) \<and> max 1 (min 10 x) \<le> 10"
  by simp

lemma clarity_range:
  "1 \<le> clarity (scoreByRules text gapList) \<and> clarity (scoreByRules text gapList) \<le> 10"
  unfolding scoreByRules_def Let_def scorecard.select_convs
  by (intro conjI le_min10 ge_min10 ge_penalty ge_bump) simp_all

lemma completeness_range:
  "1 \<le> completeness (scoreByRules text gapList) \<and>
   completeness (scoreByRules text gapList) \<le> 10"
  unfolding scoreByRules_def Let_def scorecard.select_convs
  by (rule clamp_1_10)

lemma specificity_range:
  "3 \<le> specificity (scoreByRules text gapList) \<and>
   specificity (scoreByRules text gapList) \<le> 10"
  unfolding scoreByRules_def Let_def scorecard.select_convs
  by (intro conjI le_min10 ge_min10 ge_bump) simp_all

lemma intentAlignment_range:
  "1 \<le> intentAlignment (scoreByRules text gapList) \<and>
   intentAlignment (scoreByRules text gapList) \<le> 10"
  unfolding scoreByRules_def Let_def scorecard.select_convs
  by (intro conjI le_min10 ge_min10 ge_penalty ge_bump ge_bump3) simp_all

lemma total_sum:
  "total (scoreByRules text gapList) =
     clarity (scoreByRules text gapList) + completeness (scoreByRules text gapList)
     + specificity (scoreByRules text gapList) + intentAlignment (scoreByRules text gapList)"
  unfolding scoreByRules_def Let_def scorecard.select_convs by (rule refl)
text \<open>
  C1. For every text (empty or not) and every list of gaps, the score card of \<open>score\<close> has
  \<open>total\<close> equal to the sum of the four sub-scores; clarity, specificity and intent
  alignment lie in [0,10], completeness in [1,10], and the total in [0,40].
\<close>

theorem score_card_invariant:
  "total (score text gapList) =
     clarity (score text gapList) + completeness (score text gapList)
     + specificity (score text gapList) + intentAlignment (score text gapList)
   \<and> 0 \<le> clarity (score text gapList) \<and> clarity (score text gapList) \<le> 10
   \<and> 1 \<le> completeness (score text gapList) \<and> completeness (score text gapList) \<le> 10
   \<and> 0 \<le> specificity (score text gapList) \<and> specificity (score text gapList) \<le> 10
   \<and> 0 \<le> intentAlignment (score text gapList) \<and> intentAlignment (score text gapList) \<le> 10
   \<and> 0 \<le> total (score text gapList) \<and> total (score text gapList) \<le> 40"
proof -
  note c = clarity_range [of "text" gapList]
  note m = completeness_range [of "text" gapList]
  note s = specificity_range [of "text" gapList]
  note i = intentAlignment_range [of "text" gapList]
  note t = total_sum [of "text" gapList]
  from c m s i t show ?thesis
    unfolding score_def by linarith
qed

lemma fix_words: "filter (\<lambda>w. w \<noteq> []) (splitWhitespace ''fix'') = [''fix'']"
  by code_simp

lemma fix_runs: "countRuns False ''fix'' = 0"
  by code_simp

lemma fix_punctuation:
  "\<not> str_includes ''fix'' ''?''" "\<not> str_includes ''fix'' '',''" "\<not> str_includes ''fix'' ''.''"
  by code_simp+

lemma fix_action: "list_ex (str_includes (toLowerCase ''fix'')) actionVerbs"
  by code_simp

lemma fix_clarity: "clarity (scoreByRules ''fix'' gapList) = 1"
  unfolding scoreByRules_def Let_def scorecard.select_convs
  by (simp add: fix_words fix_runs fix_punctuation)

lemma fix_intentAlignment: "intentAlignment (scoreByRules ''fix'' gapList) = 5"
  unfolding scoreByRules_def Let_def scorecard.select_convs
  by (simp add: fix_words fix_punctuation fix_action)

text \<open>
  C7. On the one-word text "fix", whatever the gaps, \<open>score\<close> gives clarity 1 and intent
  alignment 5.
\<close>

theorem score_fix:
  "clarity (score ''fix'' gapList) = 1 \<and> intentAlignment (score ''fix'' gapList) = 5"
  unfolding score_def using fix_clarity fix_intentAlignment by simp

section \<open>Properties of the warning generator\<close>

lemma generate_empty_iff:
  "(generate scores gapList intent = []) =
     (5 < specificity scores \<and> length gapList < 2 \<and> 3 < clarity scores
      \<and> 3 < intentAlignment scores \<and> map_option confidence intent \<noteq> Some ''low''
      \<and> 12 < total scores)"
  unfolding generate_def Let_def by (simp add: not_le not_less)

lemma generate_risk_exclusive:
  "(HighHallucinationRisk \<in> set (generate scores gapList intent)) = (specificity scores \<le> 3)"
  "(ModerateHallucinationRisk \<in> set (generate scores gapList intent)) =
     (3 < specificity scores \<and> specificity scores \<le> 5)"
  unfolding generate_def Let_def by simp_all

text \<open>
  C8. \<open>generate\<close> returns the empty list exactly when none of the six conditions holds
  (specificity at most 5, at least two gaps, clarity at most 3, intent alignment at most 3,
  confidence low, total at most 12); it returns the empty list for the scores
  10/10/10/10/40 with no gap and confidence high; the high-risk message is there exactly when
  specificity is at most 3 and the moderate-risk message exactly when it is 4 or 5, so the
  two never appear together.
\<close>

theorem generate_warnings_empty:
  "(generate scores gapList intent = []) =
     (\<not> specificity scores \<le> 5 \<and> \<not> length gapList \<ge> 2 \<and> \<not> clarity scores \<le> 3
      \<and> \<not> intentAlignment scores \<le> 3 \<and> map_option confidence intent \<noteq> Some ''low''
      \<and> \<not> total scores \<le> 12)
   \<and> generate \<lparr>clarity = 10, completeness = 10, specificity = 10, intentAlignment = 10,
                total = 40\<rparr> []
        (Some \<lparr>detected = d, confidence = ''high'', source = src\<rparr>) = []
   \<and> (HighHallucinationRisk \<in> set (generate scores gapList intent)) = (specificity scores \<le> 3)
   \<and> (ModerateHallucinationRisk \<in> set (generate scores gapList intent)) =
       (3 < specificity scores \<and> specificity scores \<le> 5)
   \<and> \<not> (HighHallucinationRisk \<in> set (generate scores gapList intent)
          \<and> ModerateHallucinationRisk \<in> set (generate scores gapList intent))"
proof -
  have a: "(generate scores gapList intent = []) =
     (\<not> specificity scores \<le> 5 \<and> \<not> length gapList \<ge> 2 \<and> \<not> clarity scores \<le> 3
      \<and> \<not> intentAlignment scores \<le> 3 \<and> map_option confidence intent \<noteq> Some ''low''
      \<and> \<not> total scores \<le> 12)"
    unfolding generate_empty_iff by (simp add: not_le)
  have b: "generate \<lparr>clarity = 10, completeness = 10, specificity = 10, intentAlignment = 10,
                total = 40\<rparr> []
        (Some \<lparr>detected = d, confidence = ''high'', source = src\<rparr>) = []"
    unfolding generate_empty_iff by simp
  have c: "\<not> (HighHallucinationRisk \<in> set (generate scores gapList intent)
          \<and> ModerateHallucinationRisk \<in> set (generate scores gapList intent))"
    unfolding generate_risk_exclusive by simp
  from a b c generate_risk_exclusive [of scores gapList intent] show ?thesis
    by blast
qed

section \<open>Properties of the intent detector\<close>

lemma str_includes_iff: "str_includes s sub = (\<exists>pre post. s = pre @ sub @ post)"
proof (induction s)
  case Nil
  then show ?case by auto
next
  case (Cons c cs)
  show ?case
  proof
    assume "str_includes (c # cs) sub"
    then consider "prefix sub (c # cs)" | "str_includes cs sub" by auto
    then show "\<exists>pre post. c # cs = pre @ sub @ post"
    proof cases
      case 1
      then obtain post where "c # cs = sub @ post" by (auto simp: prefix_def)
      then have "c # cs = [] @ sub @ post" by simp
      then show ?thesis by blast
    next
      case 2
      with Cons.IH obtain pre post where "cs = pre @ sub @ post" by blast
      then have "c # cs = (c # pre) @ sub @ post" by simp
      then show ?thesis by blast
    qed
  next
    assume "\<exists>pre post. c # cs = pre @ sub @ post"
    then obtain pre post where e: "c # cs = pre @ sub @ post" by blast
    show "str_includes (c # cs) sub"
    proof (cases pre)
      case Nil
      with e have "prefix sub (c # cs)" by (simp add: prefix_def)
      then show ?thesis by simp
    next
      case (Cons p pre')
      with e have "cs = pre' @ sub @ post" by simp
      with Cons.IH have "str_includes cs sub" by blast
      then show ?thesis by simp
    qed
  qed
qed

lemma scanKeywords_iff: "scanKeywords lower kws = list_ex (str_includes lower) kws"
  by (induction kws) auto

lemma scanRules_find:
  "scanRules lower rules =
     (case find (\<lambda>rule. list_ex (str_includes lower) (rule_keywords rule)) rules of
        Some rule \<Rightarrow> \<lparr>detected = rule_intent rule, confidence = ''medium'', source = ''rule''\<rparr>
      | None \<Rightarrow> \<lparr>detected = ''general'', confidence = ''low'', source = ''rule''\<rparr>)"
  by (induction rules) (auto simp: scanKeywords_iff)

lemma intentDetector_detect_find:
  "intentDetector_detect text =
     (case find (\<lambda>rule. list_ex (str_includes (toLowerCase text)) (rule_keywords rule))
             INTENT_RULES of
        Some rule \<Rightarrow> \<lparr>detected = rule_intent rule, confidence = ''medium'', source = ''rule''\<rparr>
      | None \<Rightarrow> \<lparr>detected = ''general'', confidence = ''low'', source = ''rule''\<rparr>)"
  by (simp add: intentDetector_detect_def intent_detectByRules_def scanRules_find)

lemma code_generation_first:
  "INTENT_RULES ! 0 \<in> set INTENT_RULES \<and> rule_intent (INTENT_RULES ! 0) = ''code_generation''
   \<and> rule_keywords (INTENT_RULES ! 0) =
       [''write'', ''code'', ''implement'', ''function'', ''program'', ''script'',
        ''algorithm'', ''build'', ''create a'', ''develop'']"
  by (simp add: INTENT_RULES_def)

lemma explanation_second:
  assumes "str_includes lower ''explain''"
    and "\<not> list_ex (str_includes lower)
           [''write'', ''code'', ''implement'', ''function'', ''program'', ''script'',
            ''algorithm'', ''build'', ''create a'', ''develop'']"
  shows "scanRules lower INTENT_RULES =
           \<lparr>detected = ''explanation'', confidence = ''medium'', source = ''rule''\<rparr>"
  using assms unfolding INTENT_RULES_def by (simp add: scanKeywords_iff)

lemma rule_intent_not_general: "rule \<in> set INTENT_RULES \<Longrightarrow> rule_intent rule \<noteq> ''general''"
  unfolding INTENT_RULES_def by auto

text \<open>
  C5. The result of the intent detector is that of the first rule of the table, in table
  order, one of whose keywords is contained in the lowercased text, with confidence medium
  and source rule, and general/low/rule when there is none. A text whose lowercased form
  contains "explain" and "fix" and no keyword of the code_generation rule is classified as
  explanation.
\<close>

theorem classify_first_match:
  "intentDetector_detect text =
     (case find (\<lambda>rule. list_ex (str_includes (toLowerCase text)) (rule_keywords rule))
             INTENT_RULES of
        Some rule \<Rightarrow> \<lparr>detected = rule_intent rule, confidence = ''medium'', source = ''rule''\<rparr>
      | None \<Rightarrow> \<lparr>detected = ''general'', confidence = ''low'', source = ''rule''\<rparr>)
   \<and> (str_includes (toLowerCase text) ''explain'' \<and> str_includes (toLowerCase text) ''fix''
        \<and> (\<forall>rule \<in> set INTENT_RULES. rule_intent rule = ''code_generation'' \<longrightarrow>
               \<not> list_ex (str_includes (toLowerCase text)) (rule_keywords rule))
      \<longrightarrow> intentDetector_detect text =
            \<lparr>detected = ''explanation'', confidence = ''medium'', source = ''rule''\<rparr>)"
proof (intro conjI impI)
  show "intentDetector_detect text =
     (case find (\<lambda>rule. list_ex (str_includes (toLowerCase text)) (rule_keywords rule))
             INTENT_RULES of
        Some rule \<Rightarrow> \<lparr>detected = rule_intent rule, confidence = ''medium'', source = ''rule''\<rparr>
      | None \<Rightarrow> \<lparr>detected = ''general'', confidence = ''low'', source = ''rule''\<rparr>)"
    by (rule intentDetector_detect_find)
next
  assume h: "str_includes (toLowerCase text) ''explain'' \<and> str_includes (toLowerCase text) ''fix''
        \<and> (\<forall>rule \<in> set INTENT_RULES. rule_intent rule = ''code_generation'' \<longrightarrow>
               \<not> list_ex (str_includes (toLowerCase text)) (rule_keywords rule))"
  with code_generation_first
  have "\<not> list_ex (str_includes (toLowerCase text)) (rule_keywords (INTENT_RULES ! 0))"
    by blast
  with code_generation_first
  have "\<not> list_ex (str_includes (toLowerCase text))
           [''write'', ''code'', ''implement'', ''function'', ''program'', ''script'',
            ''algorithm'', ''build'', ''create a'', ''develop'']"
    by simp
  with h have "scanRules (toLowerCase text) INTENT_RULES =
           \<lparr>detected = ''explanation'', confidence = ''medium'', source = ''rule''\<rparr>"
    by (intro explanation_second) simp_all
  then show "intentDetector_detect text =
            \<lparr>detected = ''explanation'', confidence = ''medium'', source = ''rule''\<rparr>"
    by (simp add: intentDetector_detect_def intent_detectByRules_def)
qed

theorem classify_first_match_witness:
  "intentDetector_detect ''Explain how to fix this'' =
     \<lparr>detected = ''explanation'', confidence = ''medium'', source = ''rule''\<rparr>"
proof -
  have a: "str_includes (toLowerCase ''Explain how to fix this'') ''explain''"
    by code_simp
  have b: "str_includes (toLowerCase ''Explain how to fix this'') ''fix''"
    by code_simp
  have c: "\<forall>rule \<in> set INTENT_RULES. rule_intent rule = ''code_generation'' \<longrightarrow>
             \<not> list_ex (str_includes (toLowerCase ''Explain how to fix this''))
                  (rule_keywords rule)"
    by code_simp
  from a b c classify_first_match [of "''Explain how to fix this''"] show ?thesis
    by blast
qed

lemma find_first_index:
  assumes "i < length xs" and "P (xs ! i)" and "\<forall>j<i. \<not> P (xs ! j)"
  shows "find P xs = Some (xs ! i)"
  using assms unfolding find_Some_iff by blast

lemma no_keyword_contained:
  "(\<not> list_ex (str_includes lower) kws) = (\<forall>k \<in> set kws. \<forall>p q. lower \<noteq> p @ k @ q)"
  unfolding list_ex_iff str_includes_iff by blast

lemma suffix_arrays_lower:
  "toLowerCase ''Summarize suffix arrays'' = ''summarize suf'' @ ''fix'' @ '' arrays''"
  by code_simp

lemma suffix_arrays_result:
  "intentDetector_detect ''Summarize suffix arrays'' =
     \<lparr>detected = ''debugging'', confidence = ''medium'', source = ''rule''\<rparr>"
  by code_simp

lemma suffix_arrays_earlier_rules:
  "\<not> list_ex (str_includes (toLowerCase ''Summarize suffix arrays''))
       (rule_keywords (INTENT_RULES ! 0))"
  "\<not> list_ex (str_includes (toLowerCase ''Summarize suffix arrays''))
       (rule_keywords (INTENT_RULES ! 1))"
  by code_simp+

lemma debugging_rule:
  "2 < length INTENT_RULES \<and> rule_intent (INTENT_RULES ! 2) = ''debugging''
   \<and> ''fix'' \<in> set (rule_keywords (INTENT_RULES ! 2))"
  by (simp add: INTENT_RULES_def)

lemma summarization_rule:
  "5 < length INTENT_RULES \<and> rule_intent (INTENT_RULES ! 5) = ''summarization''
   \<and> ''summarize'' \<in> set (rule_keywords (INTENT_RULES ! 5))"
  by (simp add: INTENT_RULES_def)

lemma xpoemx_result:
  "intentDetector_detect ''xpoemx'' =
     \<lparr>detected = ''creative_writing'', confidence = ''medium'', source = ''rule''\<rparr>"
  by code_simp

lemma first_rule_with_keyword:
  assumes i: "i < length INTENT_RULES"
    and kw: "kw \<in> set (rule_keywords (INTENT_RULES ! i))"
    and occ: "toLowerCase text = pre @ kw @ post"
    and earlier: "\<forall>j<i. \<forall>k \<in> set (rule_keywords (INTENT_RULES ! j)).
                    \<forall>p q. toLowerCase text \<noteq> p @ k @ q"
  shows "intentDetector_detect text =
           \<lparr>detected = rule_intent (INTENT_RULES ! i), confidence = ''medium'',
            source = ''rule''\<rparr>"
proof -
  let ?P = "\<lambda>rule. list_ex (str_includes (toLowerCase text)) (rule_keywords rule)"
  from occ have "str_includes (toLowerCase text) kw"
    unfolding str_includes_iff by blast
  with kw have here: "?P (INTENT_RULES ! i)"
    unfolding list_ex_iff by blast
  from earlier have "\<forall>j<i. \<not> ?P (INTENT_RULES ! j)"
    unfolding no_keyword_contained by blast
  from find_first_index [of i INTENT_RULES ?P, OF i here this]
  show ?thesis
    unfolding intentDetector_detect_find by simp
qed

lemma some_rule_fires:
  assumes occ: "toLowerCase text = pre @ kw @ post" and rule: "rule \<in> set INTENT_RULES"
    and kw: "kw \<in> set (rule_keywords rule)"
  shows "confidence (intentDetector_detect text) = ''medium''
          \<and> detected (intentDetector_detect text) \<noteq> ''general''"
proof -
  let ?P = "\<lambda>rule. list_ex (str_includes (toLowerCase text)) (rule_keywords rule)"
  from occ have "str_includes (toLowerCase text) kw"
    unfolding str_includes_iff by blast
  with kw have "?P rule"
    by (auto simp: list_ex_iff)
  with rule have "find ?P INTENT_RULES \<noteq> None"
    by (auto simp: find_None_iff)
  then obtain r where r: "find ?P INTENT_RULES = Some r"
    by blast
  then have "r \<in> set INTENT_RULES"
    by (auto simp: find_Some_iff)
  then have g: "rule_intent r \<noteq> ''general''"
    by (rule rule_intent_not_general)
  from r g show ?thesis
    by (simp add: intentDetector_detect_find)
qed

text \<open>
  C10. The keywords are looked for by plain containment, so the text "Summarize suffix
  arrays" is classified as debugging, not summarization: "fix" occurs inside "suffix", and
  the debugging rule stands before the summarization rule; "xpoemx" is classified as
  creative writing. In general, when a keyword of
  the rule at some index of the table occurs anywhere in the lowercased text, whatever
  stands before and after it, and no keyword of an earlier rule occurs in it, the result is
  the intent of that rule, with confidence medium and source rule.
\<close>

theorem classify_substring_match:
  "intentDetector_detect ''Summarize suffix arrays'' =
     \<lparr>detected = ''debugging'', confidence = ''medium'', source = ''rule''\<rparr>
   \<and> toLowerCase ''Summarize suffix arrays'' = ''summarize suf'' @ ''fix'' @ '' arrays''
   \<and> intentDetector_detect ''xpoemx'' =
       \<lparr>detected = ''creative_writing'', confidence = ''medium'', source = ''rule''\<rparr>
   \<and> (2 < length INTENT_RULES \<and> rule_intent (INTENT_RULES ! 2) = ''debugging''
        \<and> ''fix'' \<in> set (rule_keywords (INTENT_RULES ! 2)))
   \<and> (5 < length INTENT_RULES \<and> rule_intent (INTENT_RULES ! 5) = ''summarization''
        \<and> ''summarize'' \<in> set (rule_keywords (INTENT_RULES ! 5)))
   \<and> (i < length INTENT_RULES \<and> kw \<in> set (rule_keywords (INTENT_RULES ! i))
        \<and> toLowerCase text = pre @ kw @ post
        \<and> (\<forall>j<i. \<forall>k \<in> set (rule_keywords (INTENT_RULES ! j)).
              \<forall>p q. toLowerCase text \<noteq> p @ k @ q)
      \<longrightarrow> intentDetector_detect text =
            \<lparr>detected = rule_intent (INTENT_RULES ! i), confidence = ''medium'',
             source = ''rule''\<rparr>)
   \<and> (toLowerCase text = pre @ kw @ post \<and> rule \<in> set INTENT_RULES
        \<and> kw \<in> set (rule_keywords rule)
      \<longrightarrow> confidence (intentDetector_detect text) = ''medium''
          \<and> detected (intentDetector_detect text) \<noteq> ''general'')"
proof -
  show ?thesis
    apply (intro conjI)
    subgoal by (rule suffix_arrays_result)
    subgoal by (rule suffix_arrays_lower)
    subgoal by (rule xpoemx_result)
    subgoal by (rule debugging_rule [THEN conjunct1])
    subgoal by (rule debugging_rule [THEN conjunct2, THEN conjunct1])
    subgoal by (rule debugging_rule [THEN conjunct2, THEN conjunct2])
    subgoal by (rule summarization_rule [THEN conjunct1])
    subgoal by (rule summarization_rule [THEN conjunct2, THEN conjunct1])
    subgoal by (rule summarization_rule [THEN conjunct2, THEN conjunct2])
    subgoal by (rule impI, elim conjE) (rule first_rule_with_keyword)
    subgoal by (rule impI, elim conjE) (rule some_rule_fires)
    done
qed

theorem classify_substring_match_witness:
  "intentDetector_detect ''Summarize suffix arrays'' =
     \<lparr>detected = rule_intent (INTENT_RULES ! 2), confidence = ''medium'', source = ''rule''\<rparr>
   \<and> rule_intent (INTENT_RULES ! 2) = ''debugging''"
proof -
  have e: "\<forall>j<2. \<forall>k \<in> set (rule_keywords (INTENT_RULES ! j)).
             \<forall>p q. toLowerCase ''Summarize suffix arrays'' \<noteq> p @ k @ q"
  proof (intro allI impI)
    fix j :: nat
    assume "j < 2"
    then have "j = 0 \<or> j = 1"
      by auto
    with suffix_arrays_earlier_rules
    have "\<not> list_ex (str_includes (toLowerCase ''Summarize suffix arrays''))
              (rule_keywords (INTENT_RULES ! j))"
      by auto
    then show "\<forall>k \<in> set (rule_keywords (INTENT_RULES ! j)).
             \<forall>p q. toLowerCase ''Summarize suffix arrays'' \<noteq> p @ k @ q"
      unfolding no_keyword_contained .
  qed
  from debugging_rule suffix_arrays_lower e
  have "2 < length INTENT_RULES \<and> ''fix'' \<in> set (rule_keywords (INTENT_RULES ! 2))
        \<and> toLowerCase ''Summarize suffix arrays'' = ''summarize suf'' @ ''fix'' @ '' arrays''
        \<and> (\<forall>j<2. \<forall>k \<in> set (rule_keywords (INTENT_RULES ! j)).
              \<forall>p q. toLowerCase ''Summarize suffix arrays'' \<noteq> p @ k @ q)"
    by (intro conjI) (elim conjE, assumption)+
  from classify_substring_match [of 2 "''fix''" "''Summarize suffix arrays''"
      "''summarize suf''" "'' arrays''", THEN conjunct2, THEN conjunct2, THEN conjunct2,
      THEN conjunct2, THEN conjunct2, THEN conjunct1, THEN mp, OF this]
    debugging_rule
  show ?thesis
    by (intro conjI) (elim conjE, assumption)+
qed

section \<open>Properties of the regular expressions\<close>

lemma code_less: "code x < 256"
  unfolding code_def by simp

lemma char_eq_code: "(x = y) = (code x = code y)"
  unfolding code_def by simp

lemma code_canonicalize:
  "code (canonicalize x) =
     (if isLowerAZ x \<or> (224 \<le> code x \<and> code x \<le> 254 \<and> code x \<noteq> 247)
      then code x - 32 else code x)"
proof -
  have "(code x - 32) mod 256 = code x - 32"
    using code_less [of x] by simp
  moreover have "code (char_of (code x - 32)) = (code x - 32) mod 256"
    unfolding code_def by simp
  ultimately show ?thesis
    by (simp add: canonicalize_def)
qed

lemma code_char_of_add:
  assumes "code x \<le> 222"
  shows "code (char_of (code x + 32)) = code x + 32"
proof -
  have "code (char_of (code x + 32)) = (code x + 32) mod 256"
    unfolding code_def by simp
  with assms show ?thesis
    by simp
qed

lemma code_lowerChar:
  "code (lowerChar x) =
     (if (65 \<le> code x \<and> code x \<le> 90) \<or> (192 \<le> code x \<and> code x \<le> 222 \<and> code x \<noteq> 215)
      then code x + 32 else code x)"
  unfolding lowerChar_def by (auto simp: code_char_of_add)

lemma code_literals:
  "code (CHR ''c'') = 99" "code (CHR ''C'') = 67" "code (CHR ''+'') = 43"
  by (simp_all add: code_def)

lemma canonicalize_c:
  assumes "canonicalize (CHR ''c'') = canonicalize x"
  shows "x = CHR ''c'' \<or> x = CHR ''C''"
proof -
  from assms have "code (canonicalize (CHR ''c'')) = code (canonicalize x)"
    by simp
  then have "code x = 99 \<or> code x = 67"
    unfolding code_canonicalize isLowerAZ_def code_literals
    by (auto split: if_splits)
  then show ?thesis
    unfolding char_eq_code code_literals .
qed

lemma canonicalize_plus:
  assumes "canonicalize (CHR ''+'') = canonicalize x"
  shows "x = CHR ''+''"
proof -
  from assms have "code (canonicalize (CHR ''+'')) = code (canonicalize x)"
    by simp
  then have "code x = 43"
    unfolding code_canonicalize isLowerAZ_def code_literals
    by (auto split: if_splits)
  then show ?thesis
    unfolding char_eq_code code_literals .
qed

lemma lowerChar_not_C: "lowerChar x \<noteq> CHR ''C''"
  unfolding char_eq_code code_lowerChar code_literals by (auto split: if_splits)

lemma toLowerCase_no_C:
  assumes "toLowerCase text = pre @ a # post"
  shows "a \<noteq> CHR ''C''"
proof -
  from assms have "a \<in> set (toLowerCase text)" by simp
  then show ?thesis
    unfolding toLowerCase_def using lowerChar_not_C by auto
qed

lemma plus_not_word: "\<not> isWordChar (CHR ''+'')"
  by (simp add: isWordChar_def isLowerAZ_def isUpperAZ_def isDigit_def code_literals)

lemma litMatch_iff:
  "litMatch lit s =
     (length lit \<le> length s \<and> map canonicalize (take (length lit) s) = map canonicalize lit)"
proof (induction lit s rule: litMatch.induct)
  case (1 s)
  then show ?case by simp
next
  case (2 p ps)
  then show ?case by simp
next
  case (3 p ps c cs)
  then show ?case by auto
qed

lemma isWordAt_before:
  "isWordAt (pre @ rest) (int (length pre) - 1) = (pre \<noteq> [] \<and> isWordChar (last pre))"
proof (cases "pre = []")
  case True
  then show ?thesis by (simp add: isWordAt_def)
next
  case False
  then have n: "nat (int (length pre) - 1) = length pre - 1"
    by simp
  from False have "(pre @ rest) ! (length pre - 1) = last pre"
    by (simp add: nth_append last_conv_nth)
  with False n show ?thesis
    by (simp add: isWordAt_def)
qed

lemma isWordAt_after:
  "isWordAt (pre @ rest) (int (length pre)) = (rest \<noteq> [] \<and> isWordChar (hd rest))"
  by (cases rest) (simp_all add: isWordAt_def)

lemma isBoundary_append:
  "isBoundary (pre @ rest) (length pre) =
     ((pre \<noteq> [] \<and> isWordChar (last pre)) \<noteq> (rest \<noteq> [] \<and> isWordChar (hd rest)))"
  unfolding isBoundary_def isWordAt_before isWordAt_after by (rule refl)


lemma matchesAt_append:
  assumes "length mid = length lit"
  shows "matchesAt lit (pre @ mid @ post) (length pre) =
     (map canonicalize mid = map canonicalize lit
      \<and> ((pre \<noteq> [] \<and> isWordChar (last pre))
           \<noteq> (mid @ post \<noteq> [] \<and> isWordChar (hd (mid @ post))))
      \<and> ((pre @ mid \<noteq> [] \<and> isWordChar (last (pre @ mid)))
           \<noteq> (post \<noteq> [] \<and> isWordChar (hd post))))"
proof -
  have a: "isBoundary (pre @ mid @ post) (length pre) =
      ((pre \<noteq> [] \<and> isWordChar (last pre))
           \<noteq> (mid @ post \<noteq> [] \<and> isWordChar (hd (mid @ post))))"
    by (rule isBoundary_append)
  have "isBoundary ((pre @ mid) @ post) (length (pre @ mid)) =
      ((pre @ mid \<noteq> [] \<and> isWordChar (last (pre @ mid)))
           \<noteq> (post \<noteq> [] \<and> isWordChar (hd post)))"
    by (rule isBoundary_append)
  with assms have b: "isBoundary (pre @ mid @ post) (length pre + length lit) =
      ((pre @ mid \<noteq> [] \<and> isWordChar (last (pre @ mid)))
           \<noteq> (post \<noteq> [] \<and> isWordChar (hd post)))"
    by simp
  from assms have c: "litMatch lit (drop (length pre) (pre @ mid @ post)) =
      (map canonicalize mid = map canonicalize lit)"
    by (simp add: litMatch_iff)
  show ?thesis
    unfolding matchesAt_def a b c by blast
qed

lemma wordBoundaryTest_iff:
  "wordBoundaryTest lit s =
     (\<exists>pre mid post. s = pre @ mid @ post \<and> length mid = length lit
        \<and> map canonicalize mid = map canonicalize lit
        \<and> ((pre \<noteq> [] \<and> isWordChar (last pre))
             \<noteq> (mid @ post \<noteq> [] \<and> isWordChar (hd (mid @ post))))
        \<and> ((pre @ mid \<noteq> [] \<and> isWordChar (last (pre @ mid)))
             \<noteq> (post \<noteq> [] \<and> isWordChar (hd post))))"
proof
  assume "wordBoundaryTest lit s"
  then obtain i where i0: "i \<in> set [0..<Suc (length s)]" and m: "matchesAt lit s i"
    unfolding wordBoundaryTest_def list_ex_iff by blast
  from i0 have i: "i \<le> length s"
    by auto
  from m have "litMatch lit (drop i s)"
    unfolding matchesAt_def by blast
  then have l: "length lit \<le> length s - i"
    by (simp add: litMatch_iff)
  define pre where "pre = take i s"
  define mid where "mid = take (length lit) (drop i s)"
  define post where "post = drop (length lit) (drop i s)"
  have s: "s = pre @ mid @ post"
    unfolding pre_def mid_def post_def by (simp only: append_take_drop_id)
  from i have lp: "length pre = i"
    unfolding pre_def by simp
  from l have lm: "length mid = length lit"
    unfolding mid_def by simp
  from m have "matchesAt lit (pre @ mid @ post) (length pre)"
    unfolding lp s [symmetric] .
  with matchesAt_append [OF lm, of pre post] s lm
  show "\<exists>pre mid post. s = pre @ mid @ post \<and> length mid = length lit
        \<and> map canonicalize mid = map canonicalize lit
        \<and> ((pre \<noteq> [] \<and> isWordChar (last pre))
             \<noteq> (mid @ post \<noteq> [] \<and> isWordChar (hd (mid @ post))))
        \<and> ((pre @ mid \<noteq> [] \<and> isWordChar (last (pre @ mid)))
             \<noteq> (post \<noteq> [] \<and> isWordChar (hd post)))"
    by blast
next
  assume "\<exists>pre mid post. s = pre @ mid @ post \<and> length mid = length lit
        \<and> map canonicalize mid = map canonicalize lit
        \<and> ((pre \<noteq> [] \<and> isWordChar (last pre))
             \<noteq> (mid @ post \<noteq> [] \<and> isWordChar (hd (mid @ post))))
        \<and> ((pre @ mid \<noteq> [] \<and> isWordChar (last (pre @ mid)))
             \<noteq> (post \<noteq> [] \<and> isWordChar (hd post)))"
  then obtain pre mid post where s: "s = pre @ mid @ post" and lm: "length mid = length lit"
    and r: "map canonicalize mid = map canonicalize lit
        \<and> ((pre \<noteq> [] \<and> isWordChar (last pre))
             \<noteq> (mid @ post \<noteq> [] \<and> isWordChar (hd (mid @ post))))
        \<and> ((pre @ mid \<noteq> [] \<and> isWordChar (last (pre @ mid)))
             \<noteq> (post \<noteq> [] \<and> isWordChar (hd post)))"
    by blast
  from r have "matchesAt lit (pre @ mid @ post) (length pre)"
    unfolding matchesAt_append [OF lm] .
  then have "matchesAt lit s (length pre)"
    unfolding s .
  moreover from s have "length pre \<in> set [0..<Suc (length s)]"
    by simp
  ultimately show "wordBoundaryTest lit s"
    unfolding wordBoundaryTest_def list_ex_iff by blast
qed

lemma canonicalize_plain:
  assumes "\<not> isUpperAZ c" and "\<not> isUpperAZ p" and "code p < 128"
  shows "(canonicalize c = canonicalize p) = (c = p)"
  using assms unfolding char_eq_code code_canonicalize isLowerAZ_def isUpperAZ_def
  by (auto split: if_splits)

lemma lowerChar_not_upper: "\<not> isUpperAZ (lowerChar x)"
  unfolding isUpperAZ_def code_lowerChar by (auto split: if_splits)

lemma map_canonicalize_plain:
  assumes "\<forall>c \<in> set mid. \<not> isUpperAZ c"
    and "\<forall>p \<in> set lit. \<not> isUpperAZ p \<and> code p < 128"
  shows "(map canonicalize mid = map canonicalize lit) = (mid = lit)"
  using assms
proof (induction mid arbitrary: lit)
  case Nil
  then show ?case by auto
next
  case (Cons c mid)
  show ?case
  proof (cases lit)
    case Nil
    then show ?thesis by simp
  next
    case (Cons p ps)
    with Cons.prems have "(canonicalize c = canonicalize p) = (c = p)"
      by (intro canonicalize_plain) simp_all
    moreover from Cons Cons.prems Cons.IH [of ps]
    have "(map canonicalize mid = map canonicalize ps) = (mid = ps)"
      by simp
    ultimately show ?thesis
      using Cons by simp
  qed
qed

lemma languages_plain:
  "\<forall>lang \<in> set LANGUAGES. lang \<noteq> [] \<and> (\<forall>p \<in> set lang. \<not> isUpperAZ p \<and> code p < 128)"
  by code_simp

lemma wordBoundaryTest_language:
  assumes "lang \<in> set LANGUAGES"
  shows "wordBoundaryTest lang (toLowerCase text) =
     (\<exists>pre post. toLowerCase text = pre @ lang @ post
        \<and> ((pre \<noteq> [] \<and> isWordChar (last pre)) \<noteq> isWordChar (hd lang))
        \<and> (isWordChar (last lang) \<noteq> (post \<noteq> [] \<and> isWordChar (hd post))))"
proof -
  from assms languages_plain have ne: "lang \<noteq> []"
    and pl: "\<forall>p \<in> set lang. \<not> isUpperAZ p \<and> code p < 128"
    by blast+
  have low: "\<not> isUpperAZ c" if "toLowerCase text = pre @ mid @ post" "c \<in> set mid"
    for pre mid post c
  proof -
    from that have "c \<in> set (toLowerCase text)" by simp
    then show ?thesis
      unfolding toLowerCase_def using lowerChar_not_upper by auto
  qed
  show ?thesis
  proof
    assume "wordBoundaryTest lang (toLowerCase text)"
    then obtain pre mid post where s: "toLowerCase text = pre @ mid @ post"
      and lm: "length mid = length lang"
      and c: "map canonicalize mid = map canonicalize lang"
      and b1: "(pre \<noteq> [] \<and> isWordChar (last pre))
             \<noteq> (mid @ post \<noteq> [] \<and> isWordChar (hd (mid @ post)))"
      and b2: "(pre @ mid \<noteq> [] \<and> isWordChar (last (pre @ mid)))
             \<noteq> (post \<noteq> [] \<and> isWordChar (hd post))"
      unfolding wordBoundaryTest_iff by blast
    from low [OF s] have "\<forall>c \<in> set mid. \<not> isUpperAZ c"
      by blast
    from map_canonicalize_plain [OF this pl] c have m: "mid = lang"
      by simp
    from b1 ne have "(pre \<noteq> [] \<and> isWordChar (last pre)) \<noteq> isWordChar (hd lang)"
      unfolding m by simp
    moreover from b2 ne have "isWordChar (last lang) \<noteq> (post \<noteq> [] \<and> isWordChar (hd post))"
      unfolding m by simp
    ultimately show "\<exists>pre post. toLowerCase text = pre @ lang @ post
        \<and> ((pre \<noteq> [] \<and> isWordChar (last pre)) \<noteq> isWordChar (hd lang))
        \<and> (isWordChar (last lang) \<noteq> (post \<noteq> [] \<and> isWordChar (hd post)))"
      using s unfolding m by blast
  next
    assume "\<exists>pre post. toLowerCase text = pre @ lang @ post
        \<and> ((pre \<noteq> [] \<and> isWordChar (last pre)) \<noteq> isWordChar (hd lang))
        \<and> (isWordChar (last lang) \<noteq> (post \<noteq> [] \<and> isWordChar (hd post)))"
    then obtain pre post where s: "toLowerCase text = pre @ lang @ post"
      and b1: "(pre \<noteq> [] \<and> isWordChar (last pre)) \<noteq> isWordChar (hd lang)"
      and b2: "isWordChar (last lang) \<noteq> (post \<noteq> [] \<and> isWordChar (hd post))"
      by blast
    from b1 ne have "(pre \<noteq> [] \<and> isWordChar (last pre))
             \<noteq> (lang @ post \<noteq> [] \<and> isWordChar (hd (lang @ post)))"
      by simp
    moreover from b2 ne have "(pre @ lang \<noteq> [] \<and> isWordChar (last (pre @ lang)))
             \<noteq> (post \<noteq> [] \<and> isWordChar (hd post))"
      by simp
    ultimately show "wordBoundaryTest lang (toLowerCase text)"
      unfolding wordBoundaryTest_iff using s by blast
  qed
qed

lemma languagePresent_iff:
  assumes "lang \<in> set LANGUAGES"
  shows "languagePresent (toLowerCase text) lang =
     (if length lang \<le> 3
      then \<exists>pre post. toLowerCase text = pre @ lang @ post
        \<and> ((pre \<noteq> [] \<and> isWordChar (last pre)) \<noteq> isWordChar (hd lang))
        \<and> (isWordChar (last lang) \<noteq> (post \<noteq> [] \<and> isWordChar (hd post)))
      else \<exists>pre post. toLowerCase text = pre @ lang @ post)"
  unfolding languagePresent_def wordBoundaryTest_language [OF assms] str_includes_iff
  by (rule refl)

section \<open>Properties of the constraint detector\<close>

lemma gaps_explicit:
  "gaps (constraint_detectByRules text) =
     (if hasLanguage (toLowerCase text) then [] else [''language'']) @
     (if hasLevel (toLowerCase text) then [] else [''level'']) @
     (if hasFormat (toLowerCase text) then [] else [''output_format'']) @
     (if hasScope (toLowerCase text) then [] else [''scope'']) @
     (if hasExamples (toLowerCase text) then [] else [''examples''])"
  by (simp add: constraint_detectByRules_def Let_def addGap_def)

lemma suggestions_explicit:
  "suggestions (constraint_detectByRules text) =
     (if hasLanguage (toLowerCase text) then []
      else [(''language'', language DEFAULT_SUGGESTIONS)]) @
     (if hasLevel (toLowerCase text) then []
      else [(''level'', level DEFAULT_SUGGESTIONS)]) @
     (if hasFormat (toLowerCase text) then []
      else [(''output_format'', output_format DEFAULT_SUGGESTIONS)]) @
     (if hasScope (toLowerCase text) then []
      else [(''scope'', scope DEFAULT_SUGGESTIONS)]) @
     (if hasExamples (toLowerCase text) then []
      else [(''examples'', examples DEFAULT_SUGGESTIONS)])"
  by (simp add: constraint_detectByRules_def Let_def addGap_def)

lemma suggestion_keys:
  "map fst (suggestions (constraint_detectByRules text)) = gaps (constraint_detectByRules text)"
  unfolding gaps_explicit suggestions_explicit by simp

lemma gaps_subseq:
  "subseq (gaps (constraint_detectByRules text))
     [''language'', ''level'', ''output_format'', ''scope'', ''examples'']"
  unfolding gaps_explicit by simp

lemma gaps_distinct: "distinct (gaps (constraint_detectByRules text))"
  unfolding gaps_explicit by simp

lemma gaps_member:
  "(''language'' \<in> set (gaps (constraint_detectByRules text))) = (\<not> hasLanguage (toLowerCase text))"
  "(''level'' \<in> set (gaps (constraint_detectByRules text))) = (\<not> hasLevel (toLowerCase text))"
  "(''output_format'' \<in> set (gaps (constraint_detectByRules text))) = (\<not> hasFormat (toLowerCase text))"
  "(''scope'' \<in> set (gaps (constraint_detectByRules text))) = (\<not> hasScope (toLowerCase text))"
  "(''examples'' \<in> set (gaps (constraint_detectByRules text))) = (\<not> hasExamples (toLowerCase text))"
  unfolding gaps_explicit by simp_all

lemma gaps_cases:
  assumes "c \<in> set (gaps (constraint_detectByRules text))"
  shows "c \<in> set [''language'', ''level'', ''output_format'', ''scope'', ''examples'']"
  using gaps_subseq [of "text"] assms by (rule list_emb_set) simp

lemma suggestions_lookup:
  "map_of (suggestions (constraint_detectByRules text)) ''language'' =
     (if hasLanguage (toLowerCase text) then None else Some (language DEFAULT_SUGGESTIONS))"
  "map_of (suggestions (constraint_detectByRules text)) ''level'' =
     (if hasLevel (toLowerCase text) then None else Some (level DEFAULT_SUGGESTIONS))"
  "map_of (suggestions (constraint_detectByRules text)) ''output_format'' =
     (if hasFormat (toLowerCase text) then None else Some (output_format DEFAULT_SUGGESTIONS))"
  "map_of (suggestions (constraint_detectByRules text)) ''scope'' =
     (if hasScope (toLowerCase text) then None else Some (scope DEFAULT_SUGGESTIONS))"
  "map_of (suggestions (constraint_detectByRules text)) ''examples'' =
     (if hasExamples (toLowerCase text) then None else Some (examples DEFAULT_SUGGESTIONS))"
  unfolding suggestions_explicit by simp_all

lemma chips_length:
  "length (language DEFAULT_SUGGESTIONS) = 6" "length (level DEFAULT_SUGGESTIONS) = 3"
  "length (output_format DEFAULT_SUGGESTIONS) = 4" "length (scope DEFAULT_SUGGESTIONS) = 4"
  "length (examples DEFAULT_SUGGESTIONS) = 2"
  by (simp_all add: DEFAULT_SUGGESTIONS_def)

text \<open>
  C2. In the result of the constraint detector the keys of \<open>suggestions\<close>, in insertion
  order, are the list \<open>gaps\<close> (so they are the same set, with the same count); \<open>gaps\<close> is a
  subsequence without repetition of language, level, output_format, scope, examples; and a
  category is in \<open>gaps\<close>, and among the keys, exactly when its test on the lowercased text
  fails, so a category judged present is in neither.
\<close>

theorem detect_gaps_and_suggestions:
  "map fst (suggestions (constraintDetector_detect text)) = gaps (constraintDetector_detect text)
   \<and> set (map fst (suggestions (constraintDetector_detect text)))
       = set (gaps (constraintDetector_detect text))
   \<and> length (suggestions (constraintDetector_detect text))
       = length (gaps (constraintDetector_detect text))
   \<and> distinct (gaps (constraintDetector_detect text))
   \<and> subseq (gaps (constraintDetector_detect text))
        [''language'', ''level'', ''output_format'', ''scope'', ''examples'']
   \<and> (''language'' \<in> set (gaps (constraintDetector_detect text)))
       = (\<not> hasLanguage (toLowerCase text))
   \<and> (''level'' \<in> set (gaps (constraintDetector_detect text)))
       = (\<not> hasLevel (toLowerCase text))
   \<and> (''output_format'' \<in> set (gaps (constraintDetector_detect text)))
       = (\<not> hasFormat (toLowerCase text))
   \<and> (''scope'' \<in> set (gaps (constraintDetector_detect text)))
       = (\<not> hasScope (toLowerCase text))
   \<and> (''examples'' \<in> set (gaps (constraintDetector_detect text)))
       = (\<not> hasExamples (toLowerCase text))"
proof -
  have k: "map fst (suggestions (constraintDetector_detect text))
           = gaps (constraintDetector_detect text)"
    unfolding constraintDetector_detect_def by (rule suggestion_keys)
  from k have s: "set (map fst (suggestions (constraintDetector_detect text)))
       = set (gaps (constraintDetector_detect text))"
    by (rule arg_cong)
  from k have "length (map fst (suggestions (constraintDetector_detect text)))
       = length (gaps (constraintDetector_detect text))"
    by (rule arg_cong)
  then have l: "length (suggestions (constraintDetector_detect text))
       = length (gaps (constraintDetector_detect text))"
    by (simp only: length_map)
  have d: "distinct (gaps (constraintDetector_detect text))"
    unfolding constraintDetector_detect_def by (rule gaps_distinct)
  have q: "subseq (gaps (constraintDetector_detect text))
        [''language'', ''level'', ''output_format'', ''scope'', ''examples'']"
    unfolding constraintDetector_detect_def by (rule gaps_subseq)
  note m = gaps_member [of "text", folded constraintDetector_detect_def]
  show ?thesis
    by (intro conjI k s l d q m)
qed

text \<open>
  C3, as the claim states it, fails: the text "fix" has the gap examples, and the suggestion
  list attached to it has two entries.
\<close>

theorem suggestion_list_sizes_counterexample:
  "''examples'' \<in> set (gaps (constraintDetector_detect ''fix''))
   \<and> map_of (suggestions (constraintDetector_detect ''fix'')) ''examples''
       = Some [''Include examples'', ''No examples needed'']
   \<and> \<not> 3 \<le> length [''Include examples'', ''No examples needed'']"
  by code_simp

text \<open>
  C3, amended. For every text and every category in the gaps of the constraint detector,
  \<open>suggestions\<close> has a list for that category, with between 2 and 6 entries; the list
  has fewer than 3 entries exactly for the category examples.
\<close>

theorem suggestion_list_sizes: 
  assumes "c \<in> set (gaps (constraintDetector_detect text))"
  shows "\<exists>chips. map_of (suggestions (constraintDetector_detect text)) c = Some chips
     \<and> 2 \<le> length chips \<and> length chips \<le> 6 \<and> (length chips < 3) = (c = ''examples'')"
proof -
  from assms have g: "c \<in> set (gaps (constraint_detectByRules text))"
    by (simp add: constraintDetector_detect_def)
  from gaps_cases [OF g]
  have "c = ''language'' \<or> c = ''level'' \<or> c = ''output_format'' \<or> c = ''scope''
        \<or> c = ''examples''"
    by simp
  then show ?thesis
  proof (elim disjE)
    assume c: "c = ''language''"
    with g have "\<not> hasLanguage (toLowerCase text)" by (simp add: gaps_member)
    then show ?thesis
      unfolding c constraintDetector_detect_def by (simp add: suggestions_lookup chips_length)
  next
    assume c: "c = ''level''"
    with g have "\<not> hasLevel (toLowerCase text)" by (simp add: gaps_member)
    then show ?thesis
      unfolding c constraintDetector_detect_def by (simp add: suggestions_lookup chips_length)
  next
    assume c: "c = ''output_format''"
    with g have "\<not> hasFormat (toLowerCase text)" by (simp add: gaps_member)
    then show ?thesis
      unfolding c constraintDetector_detect_def by (simp add: suggestions_lookup chips_length)
  next
    assume c: "c = ''scope''"
    with g have "\<not> hasScope (toLowerCase text)" by (simp add: gaps_member)
    then show ?thesis
      unfolding c constraintDetector_detect_def by (simp add: suggestions_lookup chips_length)
  next
    assume c: "c = ''examples''"
    with g have "\<not> hasExamples (toLowerCase text)" by (simp add: gaps_member)
    then show ?thesis
      unfolding c constraintDetector_detect_def by (simp add: suggestions_lookup chips_length)
  qed
qed

theorem suggestion_list_sizes_witness:
  "\<exists>chips. map_of (suggestions (constraintDetector_detect ''fix'')) ''examples'' = Some chips
     \<and> 2 \<le> length chips \<and> length chips \<le> 6
     \<and> (length chips < 3) = (''examples'' = ''examples'')"
proof -
  have g: "''examples'' \<in> set (gaps (constraintDetector_detect ''fix''))"
    by code_simp
  show ?thesis
    by (rule suggestion_list_sizes [OF g])
qed

lemma algorithm_language:
  "''language'' \<in> set (gaps (constraintDetector_detect ''algorithm''))"
  by code_simp

lemma use_R_language:
  "''language'' \<notin> set (gaps (constraintDetector_detect ''Let's use R for this''))"
  by code_simp

lemma algorithm_r:
  "str_includes (toLowerCase ''algorithm'') ''r'' \<and> \<not> wordBoundaryTest ''r'' (toLowerCase ''algorithm'')"
  by code_simp

lemma inside_words_language:
  "''language'' \<in> set (gaps (constraintDetector_detect ''a cat''))
   \<and> ''language'' \<in> set (gaps (constraintDetector_detect ''a mango''))
   \<and> ''language'' \<in> set (gaps (constraintDetector_detect ''a gopher''))"
  by code_simp

text \<open>
  C4. The text "algorithm" has the gap language, although it contains the letter r: the
  indicator "r" is tested between word boundaries. The text "Let's use R for this" has not.
  For every text, language is a gap exactly when no indicator is found, one of at most 3
  characters by the word-boundary test and a longer one by containment in the lowercased
  text. The word-boundary test succeeds exactly when the input has an occurrence of the
  literal, up to case, with a word boundary before it and one after it; for an indicator of
  the table and a lowercased text the occurrence is the indicator itself. A boundary is a
  place where exactly one of the two neighbours is a word character. So the texts "a cat",
  "a mango" and "a gopher" have the gap language.
\<close>

theorem language_short_indicators:
  "''language'' \<in> set (gaps (constraintDetector_detect ''algorithm''))
   \<and> str_includes (toLowerCase ''algorithm'') ''r''
   \<and> \<not> wordBoundaryTest ''r'' (toLowerCase ''algorithm'')
   \<and> ''language'' \<notin> set (gaps (constraintDetector_detect ''Let's use R for this''))
   \<and> (''language'' \<in> set (gaps (constraintDetector_detect text)))
       = (\<not> list_ex (\<lambda>lang. if length lang \<le> 3
                               then wordBoundaryTest lang (toLowerCase text)
                               else str_includes (toLowerCase text) lang) LANGUAGES)
   \<and> wordBoundaryTest lit s =
       (\<exists>pre mid post. s = pre @ mid @ post \<and> length mid = length lit
          \<and> map canonicalize mid = map canonicalize lit
          \<and> ((pre \<noteq> [] \<and> isWordChar (last pre))
               \<noteq> (mid @ post \<noteq> [] \<and> isWordChar (hd (mid @ post))))
          \<and> ((pre @ mid \<noteq> [] \<and> isWordChar (last (pre @ mid)))
               \<noteq> (post \<noteq> [] \<and> isWordChar (hd post))))
   \<and> (lang \<in> set LANGUAGES \<longrightarrow>
        languagePresent (toLowerCase text) lang =
          (if length lang \<le> 3
           then \<exists>pre post. toLowerCase text = pre @ lang @ post
             \<and> ((pre \<noteq> [] \<and> isWordChar (last pre)) \<noteq> isWordChar (hd lang))
             \<and> (isWordChar (last lang) \<noteq> (post \<noteq> [] \<and> isWordChar (hd post)))
           else \<exists>pre post. toLowerCase text = pre @ lang @ post))
   \<and> (''language'' \<in> set (gaps (constraintDetector_detect text)))
       = (\<not> list_ex (languagePresent (toLowerCase text)) LANGUAGES)
   \<and> ''language'' \<in> set (gaps (constraintDetector_detect ''a cat''))
   \<and> ''language'' \<in> set (gaps (constraintDetector_detect ''a mango''))
   \<and> ''language'' \<in> set (gaps (constraintDetector_detect ''a gopher''))"
proof -
  have f: "(\<lambda>lang. if length lang \<le> 3
                then wordBoundaryTest lang (toLowerCase text)
                else str_includes (toLowerCase text) lang)
        = languagePresent (toLowerCase text)"
    by (rule ext) (simp add: languagePresent_def)
  have g: "(''language'' \<in> set (gaps (constraintDetector_detect text)))
       = (\<not> list_ex (languagePresent (toLowerCase text)) LANGUAGES)"
    by (simp only: constraintDetector_detect_def gaps_member hasLanguage_def)
  have e: "(''language'' \<in> set (gaps (constraintDetector_detect text)))
       = (\<not> list_ex (\<lambda>lang. if length lang \<le> 3
                               then wordBoundaryTest lang (toLowerCase text)
                               else str_includes (toLowerCase text) lang) LANGUAGES)"
    unfolding f by (rule g)
  show ?thesis
    apply (intro conjI)
    subgoal by (rule algorithm_language)
    subgoal by (rule algorithm_r [THEN conjunct1])
    subgoal by (rule algorithm_r [THEN conjunct2])
    subgoal by (rule use_R_language)
    subgoal by (rule e)
    subgoal by (rule wordBoundaryTest_iff)
    subgoal by (rule impI) (rule languagePresent_iff)
    subgoal by (rule g)
    subgoal by (rule inside_words_language [THEN conjunct1])
    subgoal by (rule inside_words_language [THEN conjunct2, THEN conjunct1])
    subgoal by (rule inside_words_language [THEN conjunct2, THEN conjunct2])
    done
qed

theorem language_short_indicators_witness:
  "languagePresent (toLowerCase ''Let's use R for this'') ''r''"
proof -
  have r: "''r'' \<in> set LANGUAGES"
    by (simp add: LANGUAGES_def)
  note t = language_short_indicators [of "''Let's use R for this''" _ _ "''r''",
      THEN conjunct2, THEN conjunct2, THEN conjunct2, THEN conjunct2, THEN conjunct2,
      THEN conjunct2, THEN conjunct1, THEN mp, OF r]
  have e: "toLowerCase ''Let's use R for this'' = ''let's use '' @ ''r'' @ '' for this''"
    by code_simp
  have w: "isWordChar (CHR ''r'')" "\<not> isWordChar (CHR '' '')"
    by code_simp+
  have "\<exists>pre post. toLowerCase ''Let's use R for this'' = pre @ ''r'' @ post
          \<and> ((pre \<noteq> [] \<and> isWordChar (last pre)) \<noteq> isWordChar (hd ''r''))
          \<and> (isWordChar (last ''r'') \<noteq> (post \<noteq> [] \<and> isWordChar (hd post)))"
    by (intro exI [of _ "''let's use ''"] exI [of _ "'' for this''"]) (simp add: e w)
  then show ?thesis
    unfolding t by simp
qed

section \<open>The indicator c++\<close>

lemma litMatch_cpp:
  assumes "litMatch ''c++'' s"
  shows "\<exists>a rest. s = a # CHR ''+'' # CHR ''+'' # rest \<and> (a = CHR ''c'' \<or> a = CHR ''C'')"
proof -
  from assms obtain a s1 where s: "s = a # s1" and a: "canonicalize (CHR ''c'') = canonicalize a"
    and m1: "litMatch ''++'' s1"
    by (cases s) auto
  from m1 obtain b s2 where s1: "s1 = b # s2" and b: "canonicalize (CHR ''+'') = canonicalize b"
    and m2: "litMatch ''+'' s2"
    by (cases s1) auto
  from m2 obtain d s3 where s2: "s2 = d # s3" and d: "canonicalize (CHR ''+'') = canonicalize d"
    by (cases s2) auto
  from b d have "b = CHR ''+''" "d = CHR ''+''"
    by (simp_all add: canonicalize_plus)
  with s s1 s2 canonicalize_c [OF a] show ?thesis
    by simp
qed

lemma wordBoundaryTest_cpp:
  assumes "wordBoundaryTest ''c++'' s"
  shows "\<exists>pre a w post. s = pre @ a # CHR ''+'' # CHR ''+'' # w # post
           \<and> (a = CHR ''c'' \<or> a = CHR ''C'') \<and> isWordChar w"
proof -
  from assms obtain i where m: "matchesAt ''c++'' s i"
    unfolding wordBoundaryTest_def list_ex_iff by blast
  then have c: "isBoundary s i \<and> litMatch ''c++'' (drop i s)
                 \<and> isBoundary s (i + length ''c++'')"
    unfolding matchesAt_def .
  from c have l: "litMatch ''c++'' (drop i s)"
    by (elim conjE)
  from c have "isBoundary s (i + length ''c++'')"
    by (elim conjE)
  moreover have "i + length ''c++'' = i + 3"
    by simp
  ultimately have "isBoundary s (i + 3)"
    by (simp only:)
  then have b: "isWordAt s (int (i + 3) - 1) \<noteq> isWordAt s (int (i + 3))"
    unfolding isBoundary_def .
  from litMatch_cpp [OF l] obtain a rest
    where d: "drop i s = a # CHR ''+'' # CHR ''+'' # rest" and a: "a = CHR ''c'' \<or> a = CHR ''C''"
    by blast
  from d have i: "i < length s"
    by (cases "i < length s") simp_all
  from d have len: "length s - i = 3 + length rest"
    by (metis length_drop length_Cons add_Suc numeral_3_eq_3 add_0)
  have "s ! (i + 2) = drop i s ! 2"
    using i by simp
  with d have "s ! (i + 2) = CHR ''+''"
    by simp
  moreover have "nat (int (i + 3) - 1) = i + 2"
    by simp
  ultimately have "\<not> isWordChar (s ! nat (int (i + 3) - 1))"
    using plus_not_word by (simp only: simp_thms)
  then have "\<not> isWordAt s (int (i + 3) - 1)"
    unfolding isWordAt_def by blast
  with b have w: "isWordAt s (int (i + 3))"
    by simp
  have n3: "nat (int (i + 3)) = i + 3"
    by (rule nat_int)
  from w have "int (i + 3) < int (length s) \<and> isWordChar (s ! nat (int (i + 3)))"
    unfolding isWordAt_def by blast
  then have i3: "i + 3 < length s" and ww: "isWordChar (s ! (i + 3))"
    unfolding n3 by (simp_all only: of_nat_less_iff)
  from i3 len obtain w post where r: "rest = w # post"
    by (cases rest) simp_all
  have "s ! (i + 3) = drop i s ! 3"
    using i by simp
  with d r have "s ! (i + 3) = w"
    by simp
  with ww have "isWordChar w"
    by simp
  moreover have "s = take i s @ a # CHR ''+'' # CHR ''+'' # w # post"
    using d r by (metis append_take_drop_id)
  ultimately show ?thesis
    using a by blast
qed


text \<open>
  C9, as the claim states it, fails: the text "c++11" contains "c++", it contains no other
  language indicator and none is found in it by its test, yet the word-boundary test for
  "c++" succeeds (the second "+" is followed by the word character 1) and language is not
  among the gaps.
\<close>

theorem cpp_language_gap_counterexample:
  "str_includes (toLowerCase ''c++11'') ''c++''
   \<and> \<not> list_ex (str_includes (toLowerCase ''c++11'')) (removeAll ''c++'' LANGUAGES)
   \<and> \<not> list_ex (languagePresent (toLowerCase ''c++11'')) (removeAll ''c++'' LANGUAGES)
   \<and> wordBoundaryTest ''c++'' (toLowerCase ''c++11'')
   \<and> ''language'' \<notin> set (gaps (constraintDetector_detect ''c++11''))"
  by code_simp

text \<open>
  C9, amended. For every text in which no language indicator other than "c++" is found and
  in whose lowercased form no occurrence of "c++" is directly followed by a word character
  (a letter, a digit or the underscore), language is among the gaps: the test for "c++"
  needs a word boundary after the second "+", and there is one only before a word
  character.
\<close>

theorem cpp_language_gap:
  assumes others: "\<forall>lang \<in> set LANGUAGES. lang \<noteq> ''c++'' \<longrightarrow>
                     \<not> languagePresent (toLowerCase text) lang"
    and tail: "\<forall>pre w post. toLowerCase text = pre @ ''c++'' @ w # post \<longrightarrow> \<not> isWordChar w"
  shows "''language'' \<in> set (gaps (constraintDetector_detect text))"
proof -
  have "\<not> hasLanguage (toLowerCase text)"
  proof
    assume "hasLanguage (toLowerCase text)"
    then obtain lang where m: "lang \<in> set LANGUAGES" and p: "languagePresent (toLowerCase text) lang"
      unfolding hasLanguage_def list_ex_iff by blast
    with others have lang: "lang = ''c++''"
      by blast
    have "languagePresent (toLowerCase text) ''c++'' = wordBoundaryTest ''c++'' (toLowerCase text)"
      by (simp add: languagePresent_def)
    with p lang have "wordBoundaryTest ''c++'' (toLowerCase text)"
      by simp
    from wordBoundaryTest_cpp [OF this] obtain pre a w post
      where e: "toLowerCase text = pre @ a # CHR ''+'' # CHR ''+'' # w # post"
        and a: "a = CHR ''c'' \<or> a = CHR ''C''" and w: "isWordChar w"
      by blast
    from e have "a \<noteq> CHR ''C''"
      by (rule toLowerCase_no_C)
    with a have "a = CHR ''c''"
      by simp
    with e have "toLowerCase text = pre @ ''c++'' @ w # post"
      by simp
    with tail w show False
      by blast
  qed
  then show ?thesis
    by (simp add: constraintDetector_detect_def gaps_member)
qed

lemma use_cpp_lower: "toLowerCase ''use c++'' = ''use c++''"
  by code_simp

lemma use_cpp_others:
  "\<forall>lang \<in> set LANGUAGES. lang \<noteq> ''c++'' \<longrightarrow> \<not> languagePresent (toLowerCase ''use c++'') lang"
  by code_simp

lemma use_cpp_tail:
  "\<forall>pre w post. toLowerCase ''use c++'' = pre @ ''c++'' @ w # post \<longrightarrow> \<not> isWordChar w"
proof (intro allI impI)
  fix pre w post
  assume "toLowerCase ''use c++'' = pre @ ''c++'' @ w # post"
  then have e: "''use c++'' = pre @ ''c++'' @ w # post"
    unfolding use_cpp_lower .
  then have "length ''use c++'' = length (pre @ ''c++'' @ w # post)"
    by (rule arg_cong)
  then have l: "length pre \<le> 3"
    by simp
  from e have t: "pre = take (length pre) ''use c++''"
    by (metis append_eq_conv_conj)
  from l consider "length pre = 0" | "length pre = 1" | "length pre = 2" | "length pre = 3"
    by linarith
  then show "\<not> isWordChar w"
  proof cases
    case 1
    with e show ?thesis by simp
  next
    case 2
    with t have "pre = ''u''" by simp
    with e show ?thesis by simp
  next
    case 3
    with t have "pre = ''us''" by simp
    with e show ?thesis by simp
  next
    case 4
    with t have "pre = ''use''" by simp
    with e show ?thesis by simp
  qed
qed

theorem cpp_language_gap_witness:
  "''language'' \<in> set (gaps (constraintDetector_detect ''use c++''))"
  using use_cpp_others use_cpp_tail by (rule cpp_language_gap)

section \<open>Properties of the numbers\<close>

lemma bitLength_bounds:
  "0 < n \<Longrightarrow> 1 \<le> bitLength n \<and> (2::rat) powi (bitLength n - 1) \<le> of_int n
     \<and> of_int n < (2::rat) powi (bitLength n)"
proof (induction n rule: bitLength.induct)
  case (1 n)
  show ?case
  proof (cases "n = 1")
    case True
    have "bitLength 1 = 1"
      by (simp add: bitLength.simps [of 1] bitLength.simps [of 0])
    with True show ?thesis by simp
  next
    case False
    with "1.prems" have h: "0 < n div 2" by simp
    from "1.prems" have b: "bitLength n = bitLength (n div 2) + 1"
      by (simp add: bitLength.simps [of n])
    from "1.IH" "1.prems" h have ih: "1 \<le> bitLength (n div 2)"
      "(2::rat) powi (bitLength (n div 2) - 1) \<le> of_int (n div 2)"
      "of_int (n div 2) < (2::rat) powi (bitLength (n div 2))"
      by simp_all
    have p: "(2::rat) powi (bitLength (n div 2) + 1 - 1) = 2 * 2 powi (bitLength (n div 2) - 1)"
      by (simp add: power_int_diff)
    have q: "(2::rat) powi (bitLength (n div 2) + 1) = 2 * 2 powi (bitLength (n div 2))"
      by (simp add: power_int_add)
    have "2 * (n div 2) \<le> n" by simp
    then have lo: "2 * (of_int (n div 2) :: rat) \<le> of_int n"
      by (metis of_int_le_iff of_int_mult of_int_numeral)
    have hi: "(of_int n :: rat) < 2 * 2 powi (bitLength (n div 2))"
    proof -
      obtain k where k: "bitLength (n div 2) = int k"
        using ih(1) by (metis nat_0_le order_trans zero_le_one)
      from ih(3) have "(of_int (n div 2) :: rat) < of_int (2 ^ k)"
        unfolding k by simp
      then have "n div 2 < 2 ^ k" by (simp only: of_int_less_iff)
      then have "n < 2 * 2 ^ k" by simp
      then have "(of_int n :: rat) < of_int (2 * 2 ^ k)" by (simp only: of_int_less_iff)
      then show ?thesis unfolding k by simp
    qed
    from ih lo hi show ?thesis
      unfolding b p q by simp
  qed
qed

lemma exponentOf_le:
  assumes "0 < x"
  shows "2 powi (exponentOf x) \<le> x"
proof -
  obtain p q where pq: "quotient_of x = (p, q)"
    by (cases "quotient_of x")
  then have q: "0 < q" and x: "x = of_int p / of_int q"
    by (simp_all add: quotient_of_denom_pos quotient_of_div)
  from assms q x have p: "0 < p"
    by (simp add: zero_less_divide_iff)
  let ?d = "bitLength p - bitLength q"
  have e: "exponentOf x = (if 2 powi ?d \<le> x then ?d else ?d - 1)"
    by (simp add: exponentOf_def pq)
  show ?thesis
  proof (cases "2 powi ?d \<le> x")
    case True
    with e show ?thesis by simp
  next
    case False
    from bitLength_bounds [OF p] have lo: "(2::rat) powi (bitLength p - 1) \<le> of_int p"
      by blast
    from bitLength_bounds [OF q] have hi: "(of_int q :: rat) \<le> 2 powi (bitLength q)"
      by simp
    have "(2::rat) powi (?d - 1) = 2 powi (bitLength p - 1 - bitLength q)"
      by (simp add: algebra_simps)
    also have "\<dots> = 2 powi (bitLength p - 1) / 2 powi (bitLength q)"
      by (rule power_int_diff) simp
    also have "\<dots> \<le> of_int p / of_int q"
      using lo hi q p by (intro frac_le) simp_all
    finally have "(2::rat) powi (?d - 1) \<le> x"
      unfolding x .
    with False e show ?thesis by simp
  qed
qed

lemma roundHalfEven_error: "\<bar>of_int (roundHalfEven r) - r\<bar> \<le> 1 / 2"
proof -
  have "of_int \<lfloor>r\<rfloor> \<le> r" "r < of_int \<lfloor>r\<rfloor> + 1"
    by linarith+
  then show ?thesis
    unfolding roundHalfEven_def Let_def by (auto simp: abs_le_iff)
qed

lemma powi_small:
  assumes "e \<le> - 60"
  shows "(2::rat) powi e \<le> 1 / 2 ^ 60"
proof -
  from assms have "(2::rat) powi e \<le> 2 powi (- 60)"
    by (rule power_int_increasing) simp
  also have "\<dots> = 1 / 2 ^ 60"
    by (simp add: inverse_eq_divide)
  finally show ?thesis .
qed

lemma ulp_bound:
  assumes "0 < x"
  shows "2 powi (max (exponentOf x) (- 1022) - 52) \<le> x / 2 ^ 52 + 1 / 2 ^ 60"
proof (cases "exponentOf x \<le> - 1022")
  case True
  then have "max (exponentOf x) (- 1022) - 52 \<le> - 60"
    by linarith
  then have "(2::rat) powi (max (exponentOf x) (- 1022) - 52) \<le> 1 / 2 ^ 60"
    by (rule powi_small)
  moreover from assms have "0 \<le> x / 2 ^ 52"
    by simp
  ultimately show ?thesis
    by linarith
next
  case False
  then have m: "max (exponentOf x) (- 1022) = exponentOf x"
    by linarith
  have "(2::rat) powi (exponentOf x - 52) = 2 powi (exponentOf x) / 2 powi 52"
    by (rule power_int_diff) simp
  also have "\<dots> \<le> x / 2 powi 52"
    using exponentOf_le [OF assms] by (intro divide_right_mono) simp_all
  finally have "(2::rat) powi (exponentOf x - 52) \<le> x / 2 ^ 52"
    by simp
  then show ?thesis
    unfolding m by simp
qed

lemma toDouble_error:
  assumes "0 < x"
  shows "\<bar>toDouble x - x\<bar> \<le> x / 2 ^ 53 + 1 / 2 ^ 61"
proof -
  define u :: rat where "u = 2 powi (max (exponentOf x) (- 1022) - 52)"
  have u: "0 < u"
    unfolding u_def by simp
  from assms have t: "toDouble x = of_int (roundHalfEven (x / u)) * u"
    by (simp add: toDouble_def u_def Let_def)
  have "toDouble x - x = (of_int (roundHalfEven (x / u)) - x / u) * u"
    using u unfolding t by (simp add: algebra_simps)
  then have "\<bar>toDouble x - x\<bar> = \<bar>of_int (roundHalfEven (x / u)) - x / u\<bar> * u"
    using u by (simp add: abs_mult)
  also have "\<dots> \<le> (1 / 2) * u"
    using u roundHalfEven_error [of "x / u"] by (intro mult_right_mono) simp_all
  also have "\<dots> \<le> (1 / 2) * (x / 2 ^ 52 + 1 / 2 ^ 60)"
    using ulp_bound [OF assms] unfolding u_def by (intro mult_left_mono) simp_all
  also have "\<dots> = x / 2 ^ 53 + 1 / 2 ^ 61"
    by (simp add: algebra_simps)
  finally show ?thesis .
qed

lemma mathRound_bounds: "of_int (mathRound r) \<le> r + 1 / 2 \<and> r - 1 / 2 < of_int (mathRound r)"
  unfolding mathRound_def by linarith

lemma percent_double_error:
  fixes a b :: nat
  assumes ab: "a \<le> b" and b0: "0 < b" and bb: "b < 2 ^ 40"
  shows "\<bar>toDouble (toDouble (of_nat a / of_nat b) * 100) - 100 * (of_nat a / of_nat b)\<bar>
           \<le> 1 / 2 ^ 45"
proof (cases "a = 0")
  case True
  then show ?thesis
    by (simp add: toDouble_def)
next
  case False
  define x :: rat where "x = of_nat a / of_nat b"
  define u :: rat where "u = 1 / 2 ^ 53"
  define v :: rat where "v = 1 / 2 ^ 61"
  define w :: rat where "w = 1 / 2 ^ 40"
  define z :: rat where "z = 1 / 2 ^ 45"
  have c1: "u + v < w" and c2: "u + v \<le> 1 / 100" and c3: "201 * u + 101 * v \<le> z"
    and c4: "0 \<le> u" "0 \<le> v"
    unfolding u_def v_def w_def z_def by simp_all
  from False b0 have x0: "0 < x"
    unfolding x_def by simp
  from ab b0 have x1: "x \<le> 1"
    unfolding x_def by simp
  from False have "1 / (of_nat b :: rat) \<le> x"
    unfolding x_def using b0 by (intro divide_right_mono) simp_all
  moreover from bb have "(of_nat b :: rat) < 2 ^ 40"
    by (metis of_nat_less_iff of_nat_numeral of_nat_power)
  then have "w < 1 / of_nat b"
    unfolding w_def using b0 by (intro divide_strict_left_mono) simp_all
  ultimately have xl: "w < x"
    by linarith
  define r1 where "r1 = toDouble x"
  from toDouble_error [OF x0] have e1: "\<bar>r1 - x\<bar> \<le> x * u + v"
    unfolding r1_def u_def v_def by simp
  from x1 c4 have "x * u \<le> 1 * u"
    by (intro mult_right_mono) simp_all
  with e1 have e1': "\<bar>r1 - x\<bar> \<le> u + v"
    by linarith
  from e1' xl c1 have r0: "0 < r1"
    by linarith
  from e1' x1 c2 have r1u: "r1 \<le> 101 / 100"
    by linarith
  define y where "y = r1 * 100"
  from r0 have y0: "0 < y"
    unfolding y_def by simp
  from r1u have y1: "y \<le> 101"
    unfolding y_def by simp
  define r2 where "r2 = toDouble y"
  from toDouble_error [OF y0] have e2: "\<bar>r2 - y\<bar> \<le> y * u + v"
    unfolding r2_def u_def v_def by simp
  from y1 c4 have "y * u \<le> 101 * u"
    by (intro mult_right_mono) simp_all
  with e2 have e2': "\<bar>r2 - y\<bar> \<le> 101 * u + v"
    by linarith
  from e2' have f2: "r2 - y \<le> 101 * u + v" "y - r2 \<le> 101 * u + v"
    by linarith+
  from e1' have f1: "r1 - x \<le> u + v" "x - r1 \<le> u + v"
    by linarith+
  have yd: "y = 100 * r1"
    unfolding y_def by simp
  from f1 f2 c3 have "r2 - 100 * x \<le> z" "100 * x - r2 \<le> z"
    unfolding yd by linarith+
  then have "\<bar>r2 - 100 * x\<bar> \<le> z"
    by linarith
  then show ?thesis
    unfolding r2_def y_def r1_def x_def z_def .
qed

lemma small_multiple_nonpos:
  fixes B d :: rat and N :: int
  assumes B: "0 < B" "B < 2 ^ 40" and d: "d \<le> 1 / 2 ^ 45" and N: "of_int N = 2 * B * d"
  shows "d \<le> 0"
proof -
  have "2 * B * d \<le> 2 * B * (1 / 2 ^ 45)"
    using B d by (intro mult_left_mono) simp_all
  also have "\<dots> < 2 * 2 ^ 40 * (1 / 2 ^ 45)"
    using B by (intro mult_strict_right_mono) simp_all
  also have "\<dots> < 1"
    by simp
  finally have "(of_int N :: rat) < of_int 1"
    unfolding N by simp
  then have "N < 1"
    by (simp only: of_int_less_iff)
  then have "(of_int N :: rat) \<le> 0"
    by simp
  then have "2 * B * d \<le> 0"
    unfolding N .
  with B show ?thesis
    by (simp add: mult_le_0_iff)
qed

lemma percent_nearest:
  fixes a b :: nat
  assumes ab: "a \<le> b" and b0: "0 < b" and bb: "b < 2 ^ 40"
  shows "\<bar>of_int (mathRound (toDouble (toDouble (of_nat a / of_nat b) * 100)))
            - 100 * (of_nat a / of_nat b :: rat)\<bar> \<le> 1 / 2"
proof -
  define B :: rat where "B = of_nat b"
  define A :: rat where "A = of_nat a"
  define t :: rat where "t = 100 * (A / B)"
  define r where "r = toDouble (toDouble (A / B) * 100)"
  define k where "k = mathRound r"
  from b0 have B0: "0 < B"
    unfolding B_def by simp
  from bb have B1: "B < 2 ^ 40"
    unfolding B_def by (metis of_nat_less_iff of_nat_numeral of_nat_power)
  from B0 have tB: "t * B = 100 * A"
    unfolding t_def by simp
  from percent_double_error [OF ab b0 bb] have "\<bar>r - t\<bar> \<le> 1 / 2 ^ 45"
    unfolding r_def t_def A_def B_def .
  then have e: "r - t \<le> 1 / 2 ^ 45" "t - r \<le> 1 / 2 ^ 45"
    by linarith+
  from mathRound_bounds [of r] have m: "of_int k \<le> r + 1 / 2" "r - 1 / 2 < of_int k"
    unfolding k_def by blast+
  have "of_int k - 1 / 2 - t \<le> 0"
  proof (rule small_multiple_nonpos [OF B0 B1])
    from e m show "of_int k - 1 / 2 - t \<le> 1 / 2 ^ 45"
      by linarith
    have "(of_int ((2 * k - 1) * int b - 200 * int a) :: rat) = (2 * of_int k - 1) * B - 2 * (100 * A)"
      unfolding A_def B_def by simp
    also have "\<dots> = 2 * B * (of_int k - 1 / 2 - t)"
      unfolding tB [symmetric] by (simp add: algebra_simps)
    finally show "(of_int ((2 * k - 1) * int b - 200 * int a) :: rat) = 2 * B * (of_int k - 1 / 2 - t)" .
  qed
  moreover have "t - of_int k - 1 / 2 \<le> 0"
  proof (rule small_multiple_nonpos [OF B0 B1])
    from e m show "t - of_int k - 1 / 2 \<le> 1 / 2 ^ 45"
      by linarith
    have "(of_int (200 * int a - (2 * k + 1) * int b) :: rat) = 2 * (100 * A) - (2 * of_int k + 1) * B"
      unfolding A_def B_def by simp
    also have "\<dots> = 2 * B * (t - of_int k - 1 / 2)"
      unfolding tB [symmetric] by (simp add: algebra_simps)
    finally show "(of_int (200 * int a - (2 * k + 1) * int b) :: rat) = 2 * B * (t - of_int k - 1 / 2)" .
  qed
  ultimately have "\<bar>of_int k - t\<bar> \<le> 1 / 2"
    by linarith
  then show ?thesis
    unfolding k_def r_def t_def A_def B_def .
qed

section \<open>Properties of the drift detector\<close>

lemma splitFrom_chars:
  "w \<in> set (splitFrom cur inRun s) \<Longrightarrow> c \<in> set w \<Longrightarrow>
     c \<in> set cur \<or> (c \<in> set s \<and> \<not> isSpace c)"
proof (induction s arbitrary: cur inRun)
  case Nil
  then show ?case by simp
next
  case (Cons d s)
  show ?case
  proof (cases "isSpace d")
    case False
    with Cons.prems have "w \<in> set (splitFrom (cur @ [d]) False s)"
      by simp
    from Cons.IH [OF this Cons.prems(2)] False show ?thesis
      by auto
  next
    case True
    show ?thesis
    proof (cases inRun)
      case True
      with \<open>isSpace d\<close> Cons.prems have "w \<in> set (splitFrom cur True s)"
        by simp
      from Cons.IH [OF this Cons.prems(2)] show ?thesis
        by auto
    next
      case False
      with \<open>isSpace d\<close> Cons.prems have "w = cur \<or> w \<in> set (splitFrom [] True s)"
        by simp
      then show ?thesis
      proof
        assume "w = cur"
        with Cons.prems show ?thesis by simp
      next
        assume "w \<in> set (splitFrom [] True s)"
        from Cons.IH [OF this Cons.prems(2)] show ?thesis
          by auto
      qed
    qed
  qed
qed

lemma extractKeywords_member:
  assumes "w \<in> set (extractKeywords text)"
  shows "2 < length w \<and> w \<notin> set STOP_WORDS \<and> (\<forall>c \<in> set w. isLowerAZ c \<or> isDigit c)"
proof -
  let ?kept = "filter (\<lambda>c. isLowerAZ c \<or> isDigit c \<or> isSpace c) (toLowerCase text)"
  from assms have a: "2 < length w \<and> w \<notin> set STOP_WORDS" and b: "w \<in> set (splitFrom [] False ?kept)"
    unfolding extractKeywords_def splitWhitespace_def by simp_all
  have "isLowerAZ c \<or> isDigit c" if "c \<in> set w" for c
  proof -
    from splitFrom_chars [OF b that] have "c \<in> set ?kept \<and> \<not> isSpace c"
      by auto
    then show ?thesis
      by auto
  qed
  with a show ?thesis
    by blast
qed

lemma drift_no_keywords:
  "extractKeywords original = [] \<Longrightarrow>
     driftDetector_detect original refined = \<lparr>driftDetected = False, driftWarning = ''''\<rparr>"
  by (simp add: driftDetector_detect_def drift_detectByRules_def)

lemma drift_detected_iff:
  "extractKeywords original \<noteq> [] \<Longrightarrow>
     driftDetected (driftDetector_detect original refined) =
       (real (length (filter (\<lambda>kw. kw \<in> set (extractKeywords refined))
                        (extractKeywords original)))
          / real (length (extractKeywords original)) < 0.4)"
  by (simp add: driftDetector_detect_def drift_detectByRules_def Let_def)

lemma drift_warning_text:
  "driftWarning (driftDetector_detect original refined) =
     (if driftDetected (driftDetector_detect original refined)
      then ''Intent drift detected: only ''
           @ numberToString (mathRound (toDouble (toDouble
               (of_nat (length (filter (\<lambda>kw. kw \<in> set (extractKeywords refined))
                                  (extractKeywords original)))
                / of_nat (length (extractKeywords original))) * 100)))
           @ ''% of original keywords are preserved in the refined prompt. The refinement may have altered your original intent.''
      else '''')"
  by (simp add: driftDetector_detect_def drift_detectByRules_def Let_def)

lemma drift_warning_nonempty:
  "driftDetected (driftDetector_detect original refined) =
     (driftWarning (driftDetector_detect original refined) \<noteq> '''')"
  by (simp add: driftDetector_detect_def drift_detectByRules_def Let_def)

lemma drift_percent_nearest:
  assumes "extractKeywords original \<noteq> []" and "length (extractKeywords original) < 2 ^ 40"
  shows "\<bar>of_int (mathRound (toDouble (toDouble
               (of_nat (length (filter (\<lambda>kw. kw \<in> set (extractKeywords refined))
                                  (extractKeywords original)))
                / of_nat (length (extractKeywords original))) * 100)))
          - 100 * (of_nat (length (filter (\<lambda>kw. kw \<in> set (extractKeywords refined))
                                     (extractKeywords original)))
                   / of_nat (length (extractKeywords original)) :: rat)\<bar> \<le> 1 / 2"
  using assms by (intro percent_nearest) simp_all

lemma keywords_mixed:
  "extractKeywords ''Go FIX it: the R2-D2 unit, an AI, is up!'' = [''fix'', ''r2d2'', ''unit'']"
  by code_simp

lemma keywords_fixing: "extractKeywords ''Fixing the UNIT'' = [''fixing'', ''unit'']"
  by code_simp

lemma keywords_to_be: "extractKeywords ''To be or not to be'' = []"
  by code_simp

lemma drift_quarter:
  "driftDetector_detect ''sort sort sort list'' ''list'' =
     \<lparr>driftDetected = True,
      driftWarning = ''Intent drift detected: only 25% of original keywords are preserved in the refined prompt. The refinement may have altered your original intent.''\<rparr>"
  by code_simp

lemma drift_retained:
  "driftDetector_detect ''Write a Python function to sort a list''
     ''Write a Python function to sort a list using quicksort''
     = \<lparr>driftDetected = False, driftWarning = ''''\<rparr>"
  by code_simp

lemma drift_none_retained:
  "driftDetector_detect ''Write a Python function to sort a list''
     ''Tell me about French cooking history'' =
     \<lparr>driftDetected = True,
      driftWarning = ''Intent drift detected: only 0% of original keywords are preserved in the refined prompt. The refinement may have altered your original intent.''\<rparr>"
  by code_simp

lemma percent_three_eighths:
  "numberToString (mathRound (toDouble (toDouble (3 / 8) * 100))) = ''38''"
  by code_simp

text \<open>
  The rounding of the doubles shows at an exact tie: 29 of 200 is 14.5 percent, the double
  product is 14.499999999999998, and the number printed is 14.
\<close>

lemma percent_tie_29_of_200:
  "toDouble (toDouble (29 / 200) * 100) = 8162774324609023 / 562949953421312
   \<and> numberToString (mathRound (toDouble (toDouble (29 / 200) * 100))) = ''14''"
  by code_simp

text \<open>
  C6. If the original text has no keyword, the drift detector returns no drift and the
  empty warning. Otherwise drift is detected exactly when the number of original keywords
  (each occurrence counted) that are in the set of refined keywords, divided by the number
  of original keywords, is below 0.4. The warning is non-empty exactly when drift is
  detected, and it is then the message with the decimal digits of the rounded percentage
  before the percent sign: \<^verbatim>\<open>Math.round\<close> of the ratio times 100 as the doubles give it,
  which for fewer than \<open>2 ^ 40\<close> keywords is an integer nearest to the exact ratio times
  100. The keywords of a text are the pieces between white space of its lowercased form
  without the characters other than a-z, 0-9 and white space, except the pieces of at most
  two characters and the stop words.
\<close>

theorem detect_drift_rule:
  "(extractKeywords original = [] \<longrightarrow>
      driftDetector_detect original refined = \<lparr>driftDetected = False, driftWarning = ''''\<rparr>)
   \<and> (extractKeywords original \<noteq> [] \<longrightarrow>
        driftDetected (driftDetector_detect original refined) =
          (real (length (filter (\<lambda>kw. kw \<in> set (extractKeywords refined))
                           (extractKeywords original)))
             / real (length (extractKeywords original)) < 0.4))
   \<and> driftDetected (driftDetector_detect original refined) =
       (driftWarning (driftDetector_detect original refined) \<noteq> '''')
   \<and> driftWarning (driftDetector_detect original refined) =
       (if driftDetected (driftDetector_detect original refined)
        then ''Intent drift detected: only ''
             @ numberToString (mathRound (toDouble (toDouble
                 (of_nat (length (filter (\<lambda>kw. kw \<in> set (extractKeywords refined))
                                    (extractKeywords original)))
                  / of_nat (length (extractKeywords original))) * 100)))
             @ ''% of original keywords are preserved in the refined prompt. The refinement may have altered your original intent.''
        else '''')
   \<and> (extractKeywords original \<noteq> [] \<and> length (extractKeywords original) < 2 ^ 40 \<longrightarrow>
        \<bar>of_int (mathRound (toDouble (toDouble
               (of_nat (length (filter (\<lambda>kw. kw \<in> set (extractKeywords refined))
                                  (extractKeywords original)))
                / of_nat (length (extractKeywords original))) * 100)))
          - 100 * (of_nat (length (filter (\<lambda>kw. kw \<in> set (extractKeywords refined))
                                     (extractKeywords original)))
                   / of_nat (length (extractKeywords original)) :: rat)\<bar> \<le> 1 / 2)
   \<and> extractKeywords original =
       filter (\<lambda>w. 2 < length w \<and> w \<notin> set STOP_WORDS)
         (splitWhitespace
           (filter (\<lambda>c. isLowerAZ c \<or> isDigit c \<or> isSpace c) (toLowerCase original)))
   \<and> (\<forall>w \<in> set (extractKeywords original).
         2 < length w \<and> w \<notin> set STOP_WORDS \<and> (\<forall>c \<in> set w. isLowerAZ c \<or> isDigit c))
   \<and> extractKeywords ''Go FIX it: the R2-D2 unit, an AI, is up!'' = [''fix'', ''r2d2'', ''unit'']
   \<and> driftDetector_detect ''sort sort sort list'' ''list'' =
       \<lparr>driftDetected = True,
        driftWarning = ''Intent drift detected: only 25% of original keywords are preserved in the refined prompt. The refinement may have altered your original intent.''\<rparr>
   \<and> driftDetector_detect ''Write a Python function to sort a list''
         ''Write a Python function to sort a list using quicksort''
       = \<lparr>driftDetected = False, driftWarning = ''''\<rparr>
   \<and> driftDetector_detect ''Write a Python function to sort a list''
         ''Tell me about French cooking history'' =
       \<lparr>driftDetected = True,
        driftWarning = ''Intent drift detected: only 0% of original keywords are preserved in the refined prompt. The refinement may have altered your original intent.''\<rparr>
   \<and> numberToString (mathRound (toDouble (toDouble (3 / 8) * 100))) = ''38''"
proof -
  have k: "extractKeywords original =
       filter (\<lambda>w. 2 < length w \<and> w \<notin> set STOP_WORDS)
         (splitWhitespace
           (filter (\<lambda>c. isLowerAZ c \<or> isDigit c \<or> isSpace c) (toLowerCase original)))"
    unfolding extractKeywords_def by (rule refl)
  have m: "\<forall>w \<in> set (extractKeywords original).
         2 < length w \<and> w \<notin> set STOP_WORDS \<and> (\<forall>c \<in> set w. isLowerAZ c \<or> isDigit c)"
    using extractKeywords_member by blast
  show ?thesis
    apply (intro conjI)
    subgoal by (rule impI) (rule drift_no_keywords)
    subgoal by (rule impI) (rule drift_detected_iff)
    subgoal by (rule drift_warning_nonempty)
    subgoal by (rule drift_warning_text)
    subgoal by (rule impI, elim conjE) (rule drift_percent_nearest)
    subgoal by (rule k)
    subgoal by (rule m)
    subgoal by (rule keywords_mixed)
    subgoal by (rule drift_quarter)
    subgoal by (rule drift_retained)
    subgoal by (rule drift_none_retained)
    subgoal by (rule percent_three_eighths)
    done
qed

theorem detect_drift_rule_witness:
  "driftDetector_detect ''To be or not to be'' ''anything''
     = \<lparr>driftDetected = False, driftWarning = ''''\<rparr>
   \<and> driftDetected (driftDetector_detect ''Go FIX it: the R2-D2 unit, an AI, is up!''
         ''Fixing the UNIT'')
   \<and> driftWarning (driftDetector_detect ''Go FIX it: the R2-D2 unit, an AI, is up!''
         ''Fixing the UNIT'')
       = ''Intent drift detected: only 33% of original keywords are preserved in the refined prompt. The refinement may have altered your original intent.''
   \<and> \<bar>of_int (mathRound (toDouble (toDouble (1 / 3) * 100))) - 100 * (1 / 3 :: rat)\<bar> \<le> 1 / 2"
proof -
  note z = detect_drift_rule [of "''To be or not to be''" "''anything''"]
  note t = detect_drift_rule [of "''Go FIX it: the R2-D2 unit, an AI, is up!''"
      "''Fixing the UNIT''"]
  have a: "driftDetector_detect ''To be or not to be'' ''anything''
     = \<lparr>driftDetected = False, driftWarning = ''''\<rparr>"
    by (rule z [THEN conjunct1, THEN mp, OF keywords_to_be])
  have n: "extractKeywords ''Go FIX it: the R2-D2 unit, an AI, is up!'' \<noteq> []"
    unfolding keywords_mixed by simp
  have l: "length (extractKeywords ''Go FIX it: the R2-D2 unit, an AI, is up!'') = 3"
    unfolding keywords_mixed by simp
  have o: "length (filter (\<lambda>kw. kw \<in> set (extractKeywords ''Fixing the UNIT''))
                    (extractKeywords ''Go FIX it: the R2-D2 unit, an AI, is up!'')) = 1"
    unfolding keywords_mixed keywords_fixing by simp
  have p: "numberToString (mathRound (toDouble (toDouble (of_nat 1 / of_nat 3) * 100))) = ''33''"
    by code_simp
  have b: "driftDetected (driftDetector_detect ''Go FIX it: the R2-D2 unit, an AI, is up!''
         ''Fixing the UNIT'')"
    unfolding t [THEN conjunct2, THEN conjunct1, THEN mp, OF n] o l by simp
  have c: "driftWarning (driftDetector_detect ''Go FIX it: the R2-D2 unit, an AI, is up!''
         ''Fixing the UNIT'')
       = ''Intent drift detected: only 33% of original keywords are preserved in the refined prompt. The refinement may have altered your original intent.''"
    using b p
    unfolding t [THEN conjunct2, THEN conjunct2, THEN conjunct2, THEN conjunct1] o l
    by simp
  have "length (extractKeywords ''Go FIX it: the R2-D2 unit, an AI, is up!'') < 2 ^ 40"
    unfolding l by simp
  with n have "extractKeywords ''Go FIX it: the R2-D2 unit, an AI, is up!'' \<noteq> []
      \<and> length (extractKeywords ''Go FIX it: the R2-D2 unit, an AI, is up!'') < 2 ^ 40"
    by (rule conjI)
  from t [THEN conjunct2, THEN conjunct2, THEN conjunct2, THEN conjunct2, THEN conjunct1,
      THEN mp, OF this]
  have d: "\<bar>of_int (mathRound (toDouble (toDouble (1 / 3) * 100))) - 100 * (1 / 3 :: rat)\<bar> \<le> 1 / 2"
    unfolding o l by simp
  from a b c d show ?thesis
    by (intro conjI)
qed

end
